theory Spec2Isabelle
  imports Main "HOL-Library.AList"
begin

section \<open>The socket layer of MBMConnect-backend (src/socket.js)\<close>

text \<open>
  A shallow embedding of the event handlers that \<^verbatim>\<open>initializeSocket\<close> registers on every
  connection. User ids, socket ids, room names and reaction types are JavaScript strings.
  The four mongoose collections the handlers touch (User, UserSettings, Message, Event)
  are lists of documents; the module-level \<^verbatim>\<open>onlineUsersMap\<close> is an association list, because
  a JavaScript Map iterates in insertion order and the disconnect handler depends on it.
  Every handler takes the server state and returns the new state together with the
  effects it produced, in program order. Each awaited store call can reject; whether it
  does is an input of the handler (\<open>db_result\<close>), so every catch block is a branch of the
  model. A handler runs to completion before the next event is looked at.
\<close>

subsection \<open>Documents\<close>

type_synonym user_id = string
type_synonym socket_id = string

record reaction =
  user :: user_id
  type :: string

text \<open>An Event document: the ``update'' of the handlers. The counters are JavaScript numbers.\<close>

record update_doc =
  e_id :: string
  title :: string
  description :: string
  organizer :: user_id
  likes :: int
  dislikes :: int
  reactions :: "reaction list"

subsection \<open>The reaction toggle (lines 168--202)\<close>

text \<open>\<^verbatim>\<open>Array.prototype.findIndex\<close>: the first index whose element satisfies the predicate;
  \<open>None\<close> stands for \<^verbatim>\<open>-1\<close>.\<close>

fun findIndex :: "('a \<Rightarrow> bool) \<Rightarrow> 'a list \<Rightarrow> nat option" where
  "findIndex P [] = None"
| "findIndex P (x # xs) =
     (if P x then Some 0
      else (case findIndex P xs of None \<Rightarrow> None | Some i \<Rightarrow> Some (Suc i)))"

text \<open>\<^verbatim>\<open>xs.splice(i, 1)\<close> for an index inside the array.\<close>

definition splice1 :: "nat \<Rightarrow> 'a list \<Rightarrow> 'a list" where
  "splice1 i xs = take i xs @ drop (Suc i) xs"

text \<open>
  The body of the \<^verbatim>\<open>updateReaction\<close> handler between loading the document and saving it:
  \<open>me\<close> is \<^verbatim>\<open>socket.userId\<close>. Any requested type other than \<^verbatim>\<open>'like'\<close> takes the else
  branches, as in the source.
\<close>

definition react :: "update_doc \<Rightarrow> user_id \<Rightarrow> string \<Rightarrow> update_doc" where
  "react update me reactionType =
     (case findIndex (\<lambda>r. user r = me) (reactions update) of
        Some existingReactionIndex \<Rightarrow>
          (let existingReaction = reactions update ! existingReactionIndex in
           if type existingReaction = reactionType then
             (let u1 = update\<lparr>reactions := splice1 existingReactionIndex (reactions update)\<rparr>
              in if reactionType = ''like''
                 then u1\<lparr>likes := max 0 (likes u1 - 1)\<rparr>
                 else u1\<lparr>dislikes := max 0 (dislikes u1 - 1)\<rparr>)
           else
             (let u1 = update\<lparr>reactions :=
                         (reactions update)[existingReactionIndex :=
                            existingReaction\<lparr>type := reactionType\<rparr>]\<rparr>
              in if reactionType = ''like''
                 then u1\<lparr>likes := likes u1 + 1, dislikes := max 0 (dislikes u1 - 1)\<rparr>
                 else u1\<lparr>dislikes := dislikes u1 + 1, likes := max 0 (likes u1 - 1)\<rparr>))
      | None \<Rightarrow>
          (let u1 = update\<lparr>reactions :=
                      reactions update @ [\<lparr>user = me, type = reactionType\<rparr>]\<rparr>
           in if reactionType = ''like''
              then u1\<lparr>likes := likes u1 + 1\<rparr>
              else u1\<lparr>dislikes := dislikes u1 + 1\<rparr>))"

text \<open>The reaction a user currently has on an update: the type of the first entry that
  carries the user's id, the one \<open>findIndex\<close> locates.\<close>

definition current_reaction :: "update_doc \<Rightarrow> user_id \<Rightarrow> string option" where
  "current_reaction update me =
     (case findIndex (\<lambda>r. user r = me) (reactions update) of
        None \<Rightarrow> None
      | Some i \<Rightarrow> Some (type (reactions update ! i)))"

text \<open>The number of reactions of one type in a reaction list, and the cached counter
  that goes with a type.\<close>

definition count_type :: "string \<Rightarrow> reaction list \<Rightarrow> int" where
  "count_type t rs = int (length (filter (\<lambda>r. type r = t) rs))"

definition cached :: "string \<Rightarrow> update_doc \<Rightarrow> int" where
  "cached t update = (if t = ''like'' then likes update else dislikes update)"

definition other_type :: "string \<Rightarrow> string" where
  "other_type t = (if t = ''like'' then ''dislike'' else ''like'')"

definition valid_type :: "string \<Rightarrow> bool" where
  "valid_type t = (t = ''like'' \<or> t = ''dislike'')"

text \<open>The cached counters agree with the reaction list.\<close>

definition counts_consistent :: "update_doc \<Rightarrow> bool" where
  "counts_consistent update =
     (likes update = count_type ''like'' (reactions update) \<and>
      dislikes update = count_type ''dislike'' (reactions update))"

text \<open>Every stored reaction has one of the two types of the data model.\<close>

definition well_typed :: "update_doc \<Rightarrow> bool" where
  "well_typed update = list_all (\<lambda>r. valid_type (type r)) (reactions update)"

subsection \<open>The stores\<close>

text \<open>A User document, with the fields the handlers read or write. \<^verbatim>\<open>_id\<close> is \<open>u_id\<close>;
  \<^verbatim>\<open>lastSeen\<close> is a timestamp, the value of \<^verbatim>\<open>new Date()\<close> that the handler is given.\<close>

record user_doc =
  u_id :: user_id
  username :: string
  profilePicture :: "string option"
  avatar :: "string option"
  isVerified :: bool
  isPremium :: bool
  showOnlineStatus :: bool
  isOnline :: bool
  lastSeen :: nat

text \<open>A UserSettings document, keyed by its \<^verbatim>\<open>user\<close> field, and the object a client sends
  with \<^verbatim>\<open>updateSettings\<close>. A field that is absent, or not a boolean, is \<open>None\<close>.\<close>

record settings_doc =
  s_user :: user_id
  s_showOnlineStatus :: "bool option"
  s_showLastSeen :: "bool option"

record settings_patch =
  p_showOnlineStatus :: "bool option"
  p_showLastSeen :: "bool option"

text \<open>A Message document (\<open>body\<close> is its \<^verbatim>\<open>text\<close> field).\<close>

record message =
  sender :: user_id
  recipient :: string
  body :: string

text \<open>The payloads of the inbound events.\<close>

record message_data =
  recipientId :: string
  msg_text :: string

record update_data =
  d_title :: string
  d_description :: string

record reaction_data =
  updateId :: string
  reactionType :: string

text \<open>What \<^verbatim>\<open>populate\<close> puts in place of a user reference, and what \<^verbatim>\<open>emitOnlineUsers\<close>
  sends for each user.\<close>

record user_ref =
  ref_id :: user_id
  ref_username :: string
  ref_profilePicture :: "string option"
  ref_avatar :: "string option"

record formatted_message =
  f_sender :: "user_ref option"
  f_recipient :: "user_ref option"
  f_text :: string

record online_user =
  o_id :: user_id
  o_username :: string
  o_profilePicture :: "string option"
  o_avatar :: "string option"
  o_isVerified :: bool
  o_isPremium :: bool

subsection \<open>Effects\<close>

text \<open>\<^verbatim>\<open>io.emit\<close> reaches every connection, \<^verbatim>\<open>io.to(room).emit\<close> the sockets that joined the
  room, \<^verbatim>\<open>socket.emit\<close> the connection the event came from.\<close>

datatype target = ToAll | ToRoom string | ToSocket socket_id

datatype payload =
    OnlineUsers "online_user list"
  | MessagePayload formatted_message
  | NewUpdate update_doc "user_ref option"
  | UpdatePayload update_doc
  | ErrorPayload string

text \<open>What a handler does besides changing the state, in program order: an emission, a
  line of \<^verbatim>\<open>console.error\<close> (its fixed first argument), or a store write that succeeded.
  \<^verbatim>\<open>console.log\<close> is not recorded.\<close>

datatype effect =
    Emit target string payload
  | ConsoleError string
  | SaveMessage message
  | SaveEvent update_doc
  | UpdateUser user_id bool nat
  | UpsertSettings user_id settings_patch

text \<open>The outcome of one awaited store call.\<close>

datatype db_result = Ok | Throws

subsection \<open>The server state\<close>

record server =
  onlineUsersMap :: "(user_id \<times> socket_id set) list"
  socketUserId :: "socket_id \<Rightarrow> user_id option"
  socketRooms :: "socket_id \<Rightarrow> string set"
  users :: "user_doc list"
  userSettings :: "settings_doc list"
  messages :: "message list"
  events :: "update_doc list"

text \<open>\<^verbatim>\<open>initializeSocket\<close> creates the empty \<^verbatim>\<open>onlineUsersMap\<close>; no socket exists yet. The
  stores hold whatever they held.\<close>

definition initializeSocket ::
  "user_doc list \<Rightarrow> settings_doc list \<Rightarrow> message list \<Rightarrow> update_doc list \<Rightarrow> server" where
  "initializeSocket us ss ms es =
     \<lparr>onlineUsersMap = [], socketUserId = (\<lambda>_. None), socketRooms = (\<lambda>_. {}),
      users = us, userSettings = ss, messages = ms, events = es\<rparr>"

text \<open>The test \<^verbatim>\<open>!socket.userId\<close>: the property is unset, or the empty string. The result
  is the user id when the test lets the handler go on.\<close>

definition socket_user :: "server \<Rightarrow> socket_id \<Rightarrow> user_id option" where
  "socket_user st sid =
     (case socketUserId st sid of
        None \<Rightarrow> None
      | Some u \<Rightarrow> if u = [] then None else Some u)"

subsection \<open>The registry: \<^verbatim>\<open>onlineUsersMap\<close>\<close>

text \<open>\<^verbatim>\<open>Map.has\<close> and \<^verbatim>\<open>Map.get\<close> are \<open>map_of\<close>, \<^verbatim>\<open>Map.set\<close> is \<open>AList.update\<close> (a new key
  goes to the end, a known key keeps its place), \<^verbatim>\<open>Map.delete\<close> is \<open>AList.delete\<close>.\<close>

definition isOnlineUser :: "server \<Rightarrow> user_id \<Rightarrow> bool" where
  "isOnlineUser st userId = (map_of (onlineUsersMap st) userId \<noteq> None)"

definition connections :: "server \<Rightarrow> user_id \<Rightarrow> socket_id set" where
  "connections st userId =
     (case map_of (onlineUsersMap st) userId of None \<Rightarrow> {} | Some S \<Rightarrow> S)"

text \<open>Lines 218--221 of \<^verbatim>\<open>userLogin\<close>.\<close>

definition associate ::
  "(user_id \<times> socket_id set) list \<Rightarrow> user_id \<Rightarrow> socket_id \<Rightarrow> (user_id \<times> socket_id set) list" where
  "associate m userId sid =
     (let m1 = (if map_of m userId = None then AList.update userId {} m else m)
      in case map_of m1 userId of
           Some S \<Rightarrow> AList.update userId (insert sid S) m1
         | None \<Rightarrow> m1)"

text \<open>The loop of lines 261--271: the entries in insertion order, up to the first set that
  holds the socket id. The result is the map and \<^verbatim>\<open>disconnectedUserId\<close>.\<close>

fun disconnect_scan ::
  "socket_id \<Rightarrow> (user_id \<times> socket_id set) list \<Rightarrow>
   (user_id \<times> socket_id set) list \<times> user_id option" where
  "disconnect_scan sid [] = ([], None)"
| "disconnect_scan sid ((userId, socketSet) # rest) =
     (if sid \<in> socketSet then
        (if socketSet - {sid} = {} then (rest, Some userId)
         else ((userId, socketSet - {sid}) # rest, None))
      else (case disconnect_scan sid rest of
              (rest', found) \<Rightarrow> ((userId, socketSet) # rest', found)))"

subsection \<open>Store operations\<close>

text \<open>\<^verbatim>\<open>User.findByIdAndUpdate(id, {isOnline, lastSeen})\<close>; ids are unique in a collection.\<close>

definition findByIdAndUpdate :: "user_doc list \<Rightarrow> user_id \<Rightarrow> bool \<Rightarrow> nat \<Rightarrow> user_doc list" where
  "findByIdAndUpdate us userId online now =
     map (\<lambda>u. if u_id u = userId then u\<lparr>isOnline := online, lastSeen := now\<rparr> else u) us"

definition findUser :: "user_doc list \<Rightarrow> string \<Rightarrow> user_doc option" where
  "findUser us userId = find (\<lambda>u. u_id u = userId) us"

text \<open>\<^verbatim>\<open>UserSettings.findOneAndUpdate({user}, {$set: patch}, {new: true, upsert: true})\<close>.\<close>

definition apply_patch :: "settings_patch \<Rightarrow> settings_doc \<Rightarrow> settings_doc" where
  "apply_patch p d =
     d\<lparr>s_showOnlineStatus :=
          (case p_showOnlineStatus p of None \<Rightarrow> s_showOnlineStatus d | Some b \<Rightarrow> Some b),
       s_showLastSeen :=
          (case p_showLastSeen p of None \<Rightarrow> s_showLastSeen d | Some b \<Rightarrow> Some b)\<rparr>"

fun findOneAndUpdate :: "settings_doc list \<Rightarrow> user_id \<Rightarrow> settings_patch \<Rightarrow> settings_doc list" where
  "findOneAndUpdate [] userId p =
     [apply_patch p \<lparr>s_user = userId, s_showOnlineStatus = None, s_showLastSeen = None\<rparr>]"
| "findOneAndUpdate (d # ds) userId p =
     (if s_user d = userId then apply_patch p d # ds else d # findOneAndUpdate ds userId p)"

text \<open>\<^verbatim>\<open>Event.findById\<close> and \<^verbatim>\<open>update.save()\<close> of a loaded document.\<close>

definition findById :: "update_doc list \<Rightarrow> string \<Rightarrow> update_doc option" where
  "findById es i = find (\<lambda>e. e_id e = i) es"

definition saveUpdate :: "update_doc list \<Rightarrow> update_doc \<Rightarrow> update_doc list" where
  "saveUpdate es update = map (\<lambda>e. if e_id e = e_id update then update else e) es"

text \<open>\<^verbatim>\<open>populate(path, 'username profilePicture avatar')\<close>: the referenced user, or null.\<close>

definition populate :: "user_doc list \<Rightarrow> string \<Rightarrow> user_ref option" where
  "populate us userId =
     map_option (\<lambda>u. \<lparr>ref_id = u_id u, ref_username = username u,
                      ref_profilePicture = profilePicture u, ref_avatar = avatar u\<rparr>)
       (findUser us userId)"

text \<open>\<^verbatim>\<open>populate('organizer', 'username profilePicture')\<close> leaves the avatar out.\<close>

definition populate_organizer :: "user_doc list \<Rightarrow> string \<Rightarrow> user_ref option" where
  "populate_organizer us userId =
     map_option (\<lambda>u. \<lparr>ref_id = u_id u, ref_username = username u,
                      ref_profilePicture = profilePicture u, ref_avatar = None\<rparr>)
       (findUser us userId)"

text \<open>The image URL expression of lines 91--114, written four times in the source:
  \<^verbatim>\<open>x ? (x.startsWith('http') ? x : `http://localhost:5000/${x}`) : null\<close>.\<close>

definition formatUrl :: "string option \<Rightarrow> string option" where
  "formatUrl x =
     (case x of
        None \<Rightarrow> None
      | Some s \<Rightarrow>
          if s = [] then None
          else if take 4 s = ''http'' then Some s
          else Some (''http://localhost:5000/'' @ s))"

definition formatRef :: "user_ref option \<Rightarrow> user_ref option" where
  "formatRef r =
     map_option (\<lambda>u. u\<lparr>ref_profilePicture := formatUrl (ref_profilePicture u),
                       ref_avatar := formatUrl (ref_avatar u)\<rparr>) r"

subsection \<open>\<^verbatim>\<open>emitOnlineUsers\<close> (lines 25--47)\<close>

definition toOnlineUser :: "user_doc \<Rightarrow> online_user" where
  "toOnlineUser u =
     \<lparr>o_id = u_id u, o_username = username u, o_profilePicture = profilePicture u,
      o_avatar = avatar u, o_isVerified = isVerified u, o_isPremium = isPremium u\<rparr>"

text \<open>The query reads \<^verbatim>\<open>showOnlineStatus\<close> of the User collection.\<close>

definition usersToShowAsOnline :: "server \<Rightarrow> online_user list" where
  "usersToShowAsOnline st =
     (let onlineUserIds = map fst (onlineUsersMap st)
      in map toOnlineUser
           (filter (\<lambda>u. u_id u \<in> set onlineUserIds \<and> showOnlineStatus u) (users st)))"

definition emitOnlineUsers :: "server \<Rightarrow> db_result \<Rightarrow> effect list" where
  "emitOnlineUsers st find_r =
     (case find_r of
        Throws \<Rightarrow> [ConsoleError ''Error emitting online users:'']
      | Ok \<Rightarrow> [Emit ToAll ''onlineUsers'' (OnlineUsers (usersToShowAsOnline st))])"

subsection \<open>The handlers (lines 57--317)\<close>

definition joinUserRoom :: "server \<Rightarrow> socket_id \<Rightarrow> user_id \<Rightarrow> server \<times> effect list" where
  "joinUserRoom st sid userId =
     (st\<lparr>socketRooms := (socketRooms st)(sid := insert userId (socketRooms st sid))\<rparr>, [])"

text \<open>The catch block of \<^verbatim>\<open>sendMessage\<close>.\<close>

definition sendMessage_failed :: "socket_id \<Rightarrow> effect list" where
  "sendMessage_failed sid =
     [ConsoleError ''Error in sendMessage:'',
      Emit (ToSocket sid) ''messageError'' (ErrorPayload ''Failed to send message'')]"

text \<open>\<^verbatim>\<open>sendMessage\<close>: the payload is destructured first (line 65), which throws on a
  payload that is null or undefined (\<open>None\<close>); then the sender is checked, the message
  saved, both references populated, and the formatted message emitted to both rooms.\<close>

definition sendMessage ::
  "server \<Rightarrow> socket_id \<Rightarrow> message_data option \<Rightarrow> db_result \<Rightarrow> db_result \<Rightarrow> db_result \<Rightarrow>
   server \<times> effect list" where
  "sendMessage st sid data save_r pop_sender_r pop_recipient_r =
     (case data of
        None \<Rightarrow> (st, sendMessage_failed sid)
      | Some d \<Rightarrow>
          (case socket_user st sid of
             None \<Rightarrow> (st, [ConsoleError ''Message sender not authenticated''])
           | Some me \<Rightarrow>
               (let newMessage = \<lparr>sender = me, recipient = recipientId d, body = msg_text d\<rparr>
                in case save_r of
                     Throws \<Rightarrow> (st, sendMessage_failed sid)
                   | Ok \<Rightarrow>
                       (let st1 = st\<lparr>messages := messages st @ [newMessage]\<rparr>
                        in if pop_sender_r = Throws \<or> pop_recipient_r = Throws
                           then (st1, SaveMessage newMessage # sendMessage_failed sid)
                           else
                             (let formattedMessage =
                                    \<lparr>f_sender = formatRef (populate (users st1) me),
                                     f_recipient =
                                       formatRef (populate (users st1) (recipientId d)),
                                     f_text = msg_text d\<rparr>
                              in (st1,
                                  [SaveMessage newMessage,
                                   Emit (ToRoom (recipientId d)) ''newMessage''
                                     (MessagePayload formattedMessage),
                                   Emit (ToRoom me) ''messageSent''
                                     (MessagePayload formattedMessage)]))))))"

definition createUpdate_failed :: "socket_id \<Rightarrow> effect list" where
  "createUpdate_failed sid =
     [ConsoleError ''Error in createUpdate:'',
      Emit (ToSocket sid) ''updateError'' (ErrorPayload ''Failed to create update'')]"

text \<open>Modelled from the spec: the defaults of the Event schema (models/Event is not part of
  the sources at hand). Section 4.5: a new update has an empty reaction list and zero
  counts. \<open>new_id\<close> is the id the store gives the document.\<close>

definition newEvent :: "string \<Rightarrow> string \<Rightarrow> string \<Rightarrow> user_id \<Rightarrow> update_doc" where
  "newEvent new_id t d org =
     \<lparr>e_id = new_id, title = t, description = d, organizer = org,
      likes = 0, dislikes = 0, reactions = []\<rparr>"

text \<open>\<^verbatim>\<open>createUpdate\<close>: the sender is checked first, then the payload destructured.\<close>

definition createUpdate ::
  "server \<Rightarrow> socket_id \<Rightarrow> update_data option \<Rightarrow> string \<Rightarrow> db_result \<Rightarrow> db_result \<Rightarrow>
   server \<times> effect list" where
  "createUpdate st sid data new_id save_r pop_r =
     (case socket_user st sid of
        None \<Rightarrow> (st, [ConsoleError ''Update creator not authenticated''])
      | Some me \<Rightarrow>
          (case data of
             None \<Rightarrow> (st, createUpdate_failed sid)
           | Some d \<Rightarrow>
               (let newUpdate = newEvent new_id (d_title d) (d_description d) me
                in case save_r of
                     Throws \<Rightarrow> (st, createUpdate_failed sid)
                   | Ok \<Rightarrow>
                       (let st1 = st\<lparr>events := events st @ [newUpdate]\<rparr>
                        in case pop_r of
                             Throws \<Rightarrow> (st1, SaveEvent newUpdate # createUpdate_failed sid)
                           | Ok \<Rightarrow>
                               (st1,
                                [SaveEvent newUpdate,
                                 Emit ToAll ''newUpdate''
                                   (NewUpdate newUpdate
                                      (populate_organizer (users st1) me))])))))"

definition updateReaction_failed :: "socket_id \<Rightarrow> effect list" where
  "updateReaction_failed sid =
     [ConsoleError ''Error in updateReaction:'',
      Emit (ToSocket sid) ''updateError'' (ErrorPayload ''Failed to react to update'')]"

text \<open>\<^verbatim>\<open>updateReaction\<close>: the sender is checked, the payload destructured, the update loaded,
  the reaction toggled in memory, the document saved and broadcast.\<close>

definition updateReaction ::
  "server \<Rightarrow> socket_id \<Rightarrow> reaction_data option \<Rightarrow> db_result \<Rightarrow> db_result \<Rightarrow>
   server \<times> effect list" where
  "updateReaction st sid data find_r save_r =
     (case socket_user st sid of
        None \<Rightarrow> (st, [ConsoleError ''User not authenticated for reaction''])
      | Some me \<Rightarrow>
          (case data of
             None \<Rightarrow> (st, updateReaction_failed sid)
           | Some d \<Rightarrow>
               (case find_r of
                  Throws \<Rightarrow> (st, updateReaction_failed sid)
                | Ok \<Rightarrow>
                    (case findById (events st) (updateId d) of
                       None \<Rightarrow>
                         (st, [Emit (ToSocket sid) ''updateError''
                                 (ErrorPayload ''Update not found'')])
                     | Some update \<Rightarrow>
                         (let update' = react update me (reactionType d)
                          in case save_r of
                               Throws \<Rightarrow> (st, updateReaction_failed sid)
                             | Ok \<Rightarrow>
                                 (st\<lparr>events := saveUpdate (events st) update'\<rparr>,
                                  [SaveEvent update',
                                   Emit ToAll ''updateReaction''
                                     (UpdatePayload update')]))))))"

text \<open>\<^verbatim>\<open>userLogin\<close>: the socket remembers the user id, the registry gets the socket id, and
  only then is the store asked to mark the user online. When that write rejects, the
  catch block logs and nothing is undone.\<close>

definition userLogin ::
  "server \<Rightarrow> socket_id \<Rightarrow> user_id \<Rightarrow> nat \<Rightarrow> db_result \<Rightarrow> db_result \<Rightarrow> server \<times> effect list" where
  "userLogin st sid userId now update_r find_r =
     (let st1 = st\<lparr>socketUserId := (socketUserId st)(sid := Some userId)\<rparr>;
          st2 = st1\<lparr>onlineUsersMap := associate (onlineUsersMap st1) userId sid\<rparr>
      in case update_r of
           Throws \<Rightarrow> (st2, [ConsoleError ''Error in userLogin:''])
         | Ok \<Rightarrow>
             (let st3 = st2\<lparr>users := findByIdAndUpdate (users st2) userId True now\<rparr>
              in (st3, UpdateUser userId True now # emitOnlineUsers st3 find_r)))"

text \<open>\<^verbatim>\<open>userLogout\<close>: the whole entry of the user leaves the map, whatever it held.\<close>

definition userLogout ::
  "server \<Rightarrow> socket_id \<Rightarrow> user_id \<Rightarrow> nat \<Rightarrow> db_result \<Rightarrow> db_result \<Rightarrow> server \<times> effect list" where
  "userLogout st sid userId now update_r find_r =
     (let st1 = st\<lparr>onlineUsersMap := AList.delete userId (onlineUsersMap st)\<rparr>
      in case update_r of
           Throws \<Rightarrow> (st1, [ConsoleError ''Error in userLogout:''])
         | Ok \<Rightarrow>
             (let st2 = st1\<lparr>users := findByIdAndUpdate (users st1) userId False now\<rparr>
              in (st2, UpdateUser userId False now # emitOnlineUsers st2 find_r)))"

text \<open>\<^verbatim>\<open>disconnect\<close>: the scan, then \<^verbatim>\<open>if (disconnectedUserId)\<close>, which the empty string
  fails as \<^verbatim>\<open>null\<close> does.\<close>

definition disconnect ::
  "server \<Rightarrow> socket_id \<Rightarrow> nat \<Rightarrow> db_result \<Rightarrow> db_result \<Rightarrow> server \<times> effect list" where
  "disconnect st sid now update_r find_r =
     (case disconnect_scan sid (onlineUsersMap st) of
        (m', disconnectedUserId) \<Rightarrow>
          (let st1 = st\<lparr>onlineUsersMap := m'\<rparr>
           in case disconnectedUserId of
                None \<Rightarrow> (st1, [])
              | Some userId \<Rightarrow>
                  if userId = [] then (st1, [])
                  else
                    (case update_r of
                       Throws \<Rightarrow> (st1, [ConsoleError ''Error in disconnect:''])
                     | Ok \<Rightarrow>
                         (let st2 = st1\<lparr>users :=
                                      findByIdAndUpdate (users st1) userId False now\<rparr>
                          in (st2, UpdateUser userId False now # emitOnlineUsers st2 find_r)))))"

text \<open>\<^verbatim>\<open>updateSettings\<close>: the write goes to the UserSettings collection.\<close>

definition updateSettings ::
  "server \<Rightarrow> socket_id \<Rightarrow> settings_patch \<Rightarrow> db_result \<Rightarrow> db_result \<Rightarrow> server \<times> effect list" where
  "updateSettings st sid updatedSettings update_r find_r =
     (case socket_user st sid of
        None \<Rightarrow> (st, [ConsoleError ''User not authenticated for settings update''])
      | Some me \<Rightarrow>
          (case update_r of
             Throws \<Rightarrow> (st, [ConsoleError ''Error updating settings via socket:''])
           | Ok \<Rightarrow>
               (let st1 = st\<lparr>userSettings :=
                            findOneAndUpdate (userSettings st) me updatedSettings\<rparr>
                in (st1,
                    UpsertSettings me updatedSettings #
                    (if p_showOnlineStatus updatedSettings \<noteq> None
                     then emitOnlineUsers st1 find_r else [])))))"

subsection \<open>Inbound events\<close>

text \<open>One inbound event: the socket it arrives on, its payload, and the outcome of each
  store call its handler awaits.\<close>

datatype event =
    JoinUserRoom socket_id user_id
  | SendMessage socket_id "message_data option" db_result db_result db_result
  | CreateUpdate socket_id "update_data option" string db_result db_result
  | UpdateReaction socket_id "reaction_data option" db_result db_result
  | UserLogin socket_id user_id nat db_result db_result
  | UserLogout socket_id user_id nat db_result db_result
  | Disconnect socket_id nat db_result db_result
  | UpdateSettings socket_id settings_patch db_result db_result

fun step :: "server \<Rightarrow> event \<Rightarrow> server \<times> effect list" where
  "step st (JoinUserRoom sid userId) = joinUserRoom st sid userId"
| "step st (SendMessage sid data r1 r2 r3) = sendMessage st sid data r1 r2 r3"
| "step st (CreateUpdate sid data new_id r1 r2) = createUpdate st sid data new_id r1 r2"
| "step st (UpdateReaction sid data r1 r2) = updateReaction st sid data r1 r2"
| "step st (UserLogin sid userId now r1 r2) = userLogin st sid userId now r1 r2"
| "step st (UserLogout sid userId now r1 r2) = userLogout st sid userId now r1 r2"
| "step st (Disconnect sid now r1 r2) = disconnect st sid now r1 r2"
| "step st (UpdateSettings sid p r1 r2) = updateSettings st sid p r1 r2"

text \<open>The state after a sequence of events, handled one after the other.\<close>

fun run :: "server \<Rightarrow> event list \<Rightarrow> server" where
  "run st [] = st"
| "run st (e # es) = run (fst (step st e)) es"

section \<open>Notions the properties are stated with\<close>

subsection \<open>Reactions\<close>

text \<open>The entries of one user in the reaction list of an update, and the entries of
  everybody else, in list order.\<close>

definition reactions_of :: "user_id \<Rightarrow> update_doc \<Rightarrow> reaction list" where
  "reactions_of me update = filter (\<lambda>r. user r = me) (reactions update)"

definition reactions_of_others :: "user_id \<Rightarrow> update_doc \<Rightarrow> reaction list" where
  "reactions_of_others me update = filter (\<lambda>r. user r \<noteq> me) (reactions update)"

text \<open>A stored update whose counters agree with its reaction list, all of whose reactions
  are likes or dislikes.\<close>

definition stored_ok :: "update_doc \<Rightarrow> bool" where
  "stored_ok update = (counts_consistent update \<and> well_typed update)"

text \<open>A sequence of reactions on one update: who reacts, and with what type.\<close>

fun react_all :: "update_doc \<Rightarrow> (user_id \<times> string) list \<Rightarrow> update_doc" where
  "react_all update [] = update"
| "react_all update ((me, rt) # ops) = react_all (react update me rt) ops"

text \<open>Neither counter is negative.\<close>

definition nonneg_counts :: "update_doc \<Rightarrow> bool" where
  "nonneg_counts update = (0 \<le> likes update \<and> 0 \<le> dislikes update)"

subsection \<open>The registry\<close>

text \<open>The users whose connection set holds a socket id, in the order of the map.\<close>

definition owners :: "server \<Rightarrow> socket_id \<Rightarrow> user_id list" where
  "owners st sid = map fst (filter (\<lambda>(userId, socketSet). sid \<in> socketSet) (onlineUsersMap st))"

text \<open>The map as JavaScript keeps it: no key twice; and no entry with an empty set.\<close>

definition registry_ok :: "(user_id \<times> socket_id set) list \<Rightarrow> bool" where
  "registry_ok m = (distinct (map fst m) \<and> list_all (\<lambda>(userId, socketSet). socketSet \<noteq> {}) m)"

text \<open>The user id an event logs in, if it is a \<^verbatim>\<open>userLogin\<close>.\<close>

fun login_user :: "event \<Rightarrow> user_id option" where
  "login_user (UserLogin sid userId now r1 r2) = Some userId"
| "login_user _ = None"

text \<open>Every \<^verbatim>\<open>userLogin\<close> of the sequence is for the one user.\<close>

definition only_user :: "user_id \<Rightarrow> event list \<Rightarrow> bool" where
  "only_user u evs = list_all (\<lambda>e. login_user e = None \<or> login_user e = Some u) evs"

text \<open>The pairs of socket and user id of the logins of a sequence; no socket of the
  sequence logs in under two user ids; and every socket in a connection set got there by
  a login of the set \<open>L\<close>.\<close>

fun logins :: "event list \<Rightarrow> (socket_id \<times> user_id) list" where
  "logins [] = []"
| "logins (UserLogin sid userId now r1 r2 # evs) = (sid, userId) # logins evs"
| "logins (e # evs) = logins evs"

definition single_identity :: "event list \<Rightarrow> bool" where
  "single_identity evs =
     list_all (\<lambda>(s, u). list_all (\<lambda>(s', u'). s \<noteq> s' \<or> u = u') (logins evs)) (logins evs)"

definition logged :: "(socket_id \<times> user_id) set \<Rightarrow> server \<Rightarrow> bool" where
  "logged L st = (\<forall>(v, T)\<in>set (onlineUsersMap st). \<forall>s\<in>T. (s, v) \<in> L)"

subsection \<open>Effects\<close>

text \<open>Kinds of effects: an emission; a store write; an error event sent to one socket;
  a delivery of a direct message.\<close>

fun is_emit :: "effect \<Rightarrow> bool" where
  "is_emit (Emit tgt name p) = True"
| "is_emit _ = False"

fun is_store_write :: "effect \<Rightarrow> bool" where
  "is_store_write (Emit tgt name p) = False"
| "is_store_write (ConsoleError msg) = False"
| "is_store_write _ = True"

fun targeted_error :: "socket_id \<Rightarrow> effect \<Rightarrow> bool" where
  "targeted_error sid (Emit tgt name p) =
     (tgt = ToSocket sid \<and> (name = ''messageError'' \<or> name = ''updateError''))"
| "targeted_error sid _ = False"

fun is_delivery :: "effect \<Rightarrow> bool" where
  "is_delivery (Emit tgt name p) = (name = ''newMessage'' \<or> name = ''messageSent'')"
| "is_delivery _ = False"

text \<open>No delivery stands before the first successful save of a message in a list of
  effects.\<close>

fun saved_before_delivery :: "effect list \<Rightarrow> bool" where
  "saved_before_delivery [] = True"
| "saved_before_delivery (SaveMessage m # es) = True"
| "saved_before_delivery (e # es) = (\<not> is_delivery e \<and> saved_before_delivery es)"

text \<open>The user ids of each \<^verbatim>\<open>onlineUsers\<close> broadcast in a list of effects.\<close>

fun online_ids :: "effect \<Rightarrow> user_id list option" where
  "online_ids (Emit tgt name (OnlineUsers us)) = Some (map o_id us)"
| "online_ids _ = None"

definition broadcasts :: "effect list \<Rightarrow> user_id list list" where
  "broadcasts effs = List.map_filter online_ids effs"

subsection \<open>Example data\<close>

text \<open>An update as \<^verbatim>\<open>createUpdate\<close> stores it, the same update after user \<^verbatim>\<open>u1\<close> liked it,
  and a drifted one whose list holds that like while the counter says 0.\<close>

definition fresh_update :: update_doc where
  "fresh_update = newEvent ''e1'' ''Fest'' ''Annual fest'' ''u0''"

definition liked_update :: update_doc where
  "liked_update = fresh_update\<lparr>likes := 1, reactions := [\<lparr>user = ''u1'', type = ''like''\<rparr>]\<rparr>"

definition drifted_update :: update_doc where
  "drifted_update = fresh_update\<lparr>likes := 0, reactions := [\<lparr>user = ''u1'', type = ''like''\<rparr>]\<rparr>"

text \<open>A server whose store holds the liked update, after user \<^verbatim>\<open>u2\<close> logged in on socket
  \<^verbatim>\<open>s2\<close>.\<close>

definition example_server :: server where
  "example_server =
     fst (userLogin (initializeSocket [] [] [] [liked_update]) ''s2'' ''u2'' 0 Ok Ok)"

text \<open>One user logged in on two sockets, and one socket that logged in as \<^verbatim>\<open>alice\<close> and
  then as \<^verbatim>\<open>bob\<close>.\<close>

definition two_devices :: server where
  "two_devices =
     run (initializeSocket [] [] [] [])
       [UserLogin ''s1'' ''alice'' 1 Ok Ok, UserLogin ''s2'' ''alice'' 2 Ok Ok]"

definition switched_account :: server where
  "switched_account =
     run (initializeSocket [] [] [] [])
       [UserLogin ''s1'' ''alice'' 1 Ok Ok, UserLogin ''s1'' ''bob'' 2 Ok Ok]"

text \<open>Two users: \<^verbatim>\<open>alice\<close> shows her online status, \<^verbatim>\<open>bob\<close> hides his. In \<open>alice_online\<close>
  both are in the User collection and \<^verbatim>\<open>alice\<close> has logged in on socket \<^verbatim>\<open>s1\<close>.\<close>

definition alice_doc :: user_doc where
  "alice_doc =
     \<lparr>u_id = ''alice'', username = ''Alice'', profilePicture = Some ''uploads/a.png'',
      avatar = None, isVerified = False, isPremium = False, showOnlineStatus = True,
      isOnline = False, lastSeen = 0\<rparr>"

definition bob_doc :: user_doc where
  "bob_doc =
     \<lparr>u_id = ''bob'', username = ''Bob'', profilePicture = None,
      avatar = Some ''http://cdn.example/b.png'', isVerified = True, isPremium = False,
      showOnlineStatus = False, isOnline = False, lastSeen = 0\<rparr>"

definition alice_online :: server where
  "alice_online =
     fst (userLogin (initializeSocket [alice_doc, bob_doc] [] [] []) ''s1'' ''alice'' 1 Ok Ok)"

section \<open>Properties of the reaction toggle\<close>

subsection \<open>\<open>findIndex\<close> and the reaction list\<close>

lemma findIndex_None: "findIndex P xs = None \<longleftrightarrow> (\<forall>x\<in>set xs. \<not> P x)"
  by (induction xs) (auto split: option.splits)

lemma findIndex_Some:
  "findIndex P xs = Some i \<Longrightarrow> i < length xs \<and> P (xs ! i) \<and> (\<forall>j<i. \<not> P (xs ! j))"
proof (induction xs arbitrary: i)
  case Nil
  then show ?case by simp
next
  case (Cons x xs)
  show ?case
  proof (cases "P x")
    case True
    with Cons.prems show ?thesis by simp
  next
    case False
    with Cons.prems obtain k where k: "findIndex P xs = Some k" "i = Suc k"
      by (auto split: option.splits)
    from Cons.IH [OF k(1)] False k(2) show ?thesis
      by (auto simp: nth_Cons split: nat.splits)
  qed
qed

lemma findIndex_split:
  assumes "findIndex P xs = Some i"
  shows "xs = take i xs @ xs ! i # drop (Suc i) xs" and "filter P (take i xs) = []"
    and "P (xs ! i)" and "i < length xs"
proof -
  from findIndex_Some [OF assms] have i: "i < length xs" and p: "P (xs ! i)"
    and n: "\<forall>j<i. \<not> P (xs ! j)" by auto
  show "xs = take i xs @ xs ! i # drop (Suc i) xs" using i by (rule id_take_nth_drop)
  show "P (xs ! i)" by (rule p)
  show "i < length xs" by (rule i)
  have "\<forall>x\<in>set (take i xs). \<not> P x"
    using n i by (auto simp: in_set_conv_nth)
  then show "filter P (take i xs) = []" by (simp add: filter_empty_conv)
qed

lemma filter_first:
  assumes "findIndex P xs = Some i"
  shows "filter P xs = xs ! i # filter P (drop (Suc i) xs)"
proof -
  have "filter P xs = filter P (take i xs @ xs ! i # drop (Suc i) xs)"
    using findIndex_split(1) [OF assms] by simp
  then show ?thesis
    using findIndex_split(2,3) [OF assms] by simp
qed

lemma filter_splice1:
  assumes "findIndex P xs = Some i"
  shows "filter P (splice1 i xs) = tl (filter P xs)"
  using findIndex_split(2) [OF assms] filter_first [OF assms] by (simp add: splice1_def)

lemma filter_not_splice1:
  assumes "findIndex P xs = Some i"
  shows "filter (\<lambda>x. \<not> P x) (splice1 i xs) = filter (\<lambda>x. \<not> P x) xs"
proof -
  have "filter (\<lambda>x. \<not> P x) xs = filter (\<lambda>x. \<not> P x) (take i xs @ xs ! i # drop (Suc i) xs)"
    using findIndex_split(1) [OF assms] by simp
  then show ?thesis
    using findIndex_split(3) [OF assms] by (simp add: splice1_def)
qed

lemma filter_update:
  assumes "findIndex P xs = Some i" and "P y"
  shows "filter P (xs[i := y]) = y # tl (filter P xs)"
proof -
  have "xs[i := y] = take i xs @ y # drop (Suc i) xs"
    using findIndex_split(4) [OF assms(1)] by (rule upd_conv_take_nth_drop)
  then show ?thesis
    using findIndex_split(2) [OF assms(1)] filter_first [OF assms(1)] assms(2) by simp
qed

lemma filter_not_update:
  assumes "findIndex P xs = Some i" and "P y"
  shows "filter (\<lambda>x. \<not> P x) (xs[i := y]) = filter (\<lambda>x. \<not> P x) xs"
proof -
  have u: "xs[i := y] = take i xs @ y # drop (Suc i) xs"
    using findIndex_split(4) [OF assms(1)] by (rule upd_conv_take_nth_drop)
  have "filter (\<lambda>x. \<not> P x) xs = filter (\<lambda>x. \<not> P x) (take i xs @ xs ! i # drop (Suc i) xs)"
    using findIndex_split(1) [OF assms(1)] by simp
  then show ?thesis
    unfolding u using findIndex_split(3) [OF assms(1)] assms(2) by simp
qed

lemma findIndex_filter:
  "(case findIndex P xs of None \<Rightarrow> None | Some i \<Rightarrow> Some (f (xs ! i))) =
   (case filter P xs of [] \<Rightarrow> None | r # _ \<Rightarrow> Some (f r))"
  by (induction xs) (auto split: option.splits list.splits)

lemma current_reaction_filter:
  "current_reaction update me =
     (case reactions_of me update of [] \<Rightarrow> None | r # _ \<Rightarrow> Some (type r))"
  unfolding current_reaction_def reactions_of_def by (rule findIndex_filter)

lemma current_reaction_None:
  "current_reaction update me = None \<longleftrightarrow> findIndex (\<lambda>r. user r = me) (reactions update) = None"
  by (simp add: current_reaction_def split: option.splits)

lemma current_reaction_Some:
  "current_reaction update me = Some t \<Longrightarrow>
   \<exists>i. findIndex (\<lambda>r. user r = me) (reactions update) = Some i \<and> type (reactions update ! i) = t"
  by (auto simp: current_reaction_def split: option.splits)

lemma react_none:
  assumes "current_reaction update me = None"
  shows "reactions (react update me rt) = reactions update @ [\<lparr>user = me, type = rt\<rparr>]"
    and "likes (react update me rt) = (if rt = ''like'' then likes update + 1 else likes update)"
    and "dislikes (react update me rt) = (if rt = ''like'' then dislikes update else dislikes update + 1)"
  using assms by (simp_all add: current_reaction_None react_def Let_def)

lemma react_same:
  assumes "findIndex (\<lambda>r. user r = me) (reactions update) = Some i"
    and "type (reactions update ! i) = rt"
  shows "reactions (react update me rt) = splice1 i (reactions update)"
    and "likes (react update me rt) = (if rt = ''like'' then max 0 (likes update - 1) else likes update)"
    and "dislikes (react update me rt) = (if rt = ''like'' then dislikes update else max 0 (dislikes update - 1))"
  using assms by (simp_all add: react_def Let_def)

lemma react_switch:
  assumes "findIndex (\<lambda>r. user r = me) (reactions update) = Some i"
    and "type (reactions update ! i) \<noteq> rt"
  shows "reactions (react update me rt) = (reactions update)[i := (reactions update ! i)\<lparr>type := rt\<rparr>]"
    and "likes (react update me rt) = (if rt = ''like'' then likes update + 1 else max 0 (likes update - 1))"
    and "dislikes (react update me rt) = (if rt = ''like'' then max 0 (dislikes update - 1) else dislikes update + 1)"
  using assms by (simp_all add: react_def Let_def)

lemma react_from_none:
  assumes "current_reaction update me = None"
  shows "reactions_of me (react update me rt) = [\<lparr>user = me, type = rt\<rparr>]"
    and "reactions_of_others me (react update me rt) = reactions_of_others me update"
proof -
  from assms have "\<forall>r\<in>set (reactions update). user r \<noteq> me"
    by (simp add: current_reaction_None findIndex_None)
  then have "filter (\<lambda>r. user r = me) (reactions update) = []"
    by (simp add: filter_empty_conv)
  then show "reactions_of me (react update me rt) = [\<lparr>user = me, type = rt\<rparr>]"
    by (simp add: reactions_of_def react_none(1) [OF assms])
  show "reactions_of_others me (react update me rt) = reactions_of_others me update"
    by (simp add: reactions_of_others_def react_none(1) [OF assms])
qed

lemma react_remove:
  assumes "current_reaction update me = Some rt"
  shows "reactions_of me (react update me rt) = tl (reactions_of me update)"
    and "reactions_of_others me (react update me rt) = reactions_of_others me update"
proof -
  from current_reaction_Some [OF assms] obtain i
    where i: "findIndex (\<lambda>r. user r = me) (reactions update) = Some i"
      and t: "type (reactions update ! i) = rt" by blast
  show "reactions_of me (react update me rt) = tl (reactions_of me update)"
    by (simp add: reactions_of_def react_same(1) [OF i t] filter_splice1 [OF i])
  show "reactions_of_others me (react update me rt) = reactions_of_others me update"
    by (simp add: reactions_of_others_def react_same(1) [OF i t] filter_not_splice1 [OF i])
qed

lemma react_flip:
  assumes "current_reaction update me = Some t" and "t \<noteq> rt"
  shows "reactions_of me (react update me rt) =
           \<lparr>user = me, type = rt\<rparr> # tl (reactions_of me update)"
    and "reactions_of_others me (react update me rt) = reactions_of_others me update"
    and "length (reactions (react update me rt)) = length (reactions update)"
proof -
  from current_reaction_Some [OF assms(1)] obtain i
    where i: "findIndex (\<lambda>r. user r = me) (reactions update) = Some i"
      and t: "type (reactions update ! i) = t" by blast
  from t assms(2) have ne: "type (reactions update ! i) \<noteq> rt" by simp
  have u: "user (reactions update ! i) = me"
    using findIndex_Some [OF i] by simp
  then have eq: "(reactions update ! i)\<lparr>type := rt\<rparr> = \<lparr>user = me, type = rt\<rparr>"
    by (cases "reactions update ! i") simp
  show "reactions_of me (react update me rt) =
           \<lparr>user = me, type = rt\<rparr> # tl (reactions_of me update)"
    unfolding reactions_of_def react_switch(1) [OF i ne] eq
    by (rule filter_update [OF i]) simp
  show "reactions_of_others me (react update me rt) = reactions_of_others me update"
    unfolding reactions_of_others_def react_switch(1) [OF i ne] eq
    by (rule filter_not_update [OF i]) simp
  show "length (reactions (react update me rt)) = length (reactions update)"
    by (simp add: react_switch(1) [OF i ne])
qed

lemma current_reaction_singleton:
  "reactions_of me update = [r] \<Longrightarrow> current_reaction update me = Some (type r)"
  by (simp add: current_reaction_filter)

lemma current_reaction_empty:
  "reactions_of me update = [] \<Longrightarrow> current_reaction update me = None"
  by (simp add: current_reaction_filter)

lemma react_counts_none:
  assumes "current_reaction update me = None"
  shows "cached rt (react update me rt) = cached rt update + 1"
    and "cached (other_type rt) (react update me rt) = cached (other_type rt) update"
  using react_none(2,3) [OF assms, of rt] by (auto simp: cached_def other_type_def)

lemma react_counts_same:
  assumes "current_reaction update me = Some rt"
  shows "cached rt (react update me rt) = max 0 (cached rt update - 1)"
    and "cached (other_type rt) (react update me rt) = cached (other_type rt) update"
proof -
  from current_reaction_Some [OF assms] obtain i
    where i: "findIndex (\<lambda>r. user r = me) (reactions update) = Some i"
      and t: "type (reactions update ! i) = rt" by blast
  show "cached rt (react update me rt) = max 0 (cached rt update - 1)"
    using react_same(2,3) [OF i t] by (auto simp: cached_def)
  show "cached (other_type rt) (react update me rt) = cached (other_type rt) update"
    using react_same(2,3) [OF i t] by (auto simp: cached_def other_type_def)
qed

lemma react_counts_flip:
  assumes "current_reaction update me = Some t" and "t \<noteq> rt"
  shows "cached rt (react update me rt) = cached rt update + 1"
    and "cached (other_type rt) (react update me rt) = max 0 (cached (other_type rt) update - 1)"
proof -
  from current_reaction_Some [OF assms(1)] obtain i
    where i: "findIndex (\<lambda>r. user r = me) (reactions update) = Some i"
      and t: "type (reactions update ! i) = t" by blast
  from t assms(2) have ne: "type (reactions update ! i) \<noteq> rt" by simp
  show "cached rt (react update me rt) = cached rt update + 1"
    using react_switch(2,3) [OF i ne] by (auto simp: cached_def)
  show "cached (other_type rt) (react update me rt) = max 0 (cached (other_type rt) update - 1)"
    using react_switch(2,3) [OF i ne] by (auto simp: cached_def other_type_def)
qed

lemma other_type_neq: "valid_type rt \<Longrightarrow> other_type rt \<noteq> rt"
  by (auto simp: valid_type_def other_type_def)

lemma like_three_times:
  assumes "current_reaction update me = None"
  shows "current_reaction (react update me ''like'') me = Some ''like''"
    and "current_reaction (react (react update me ''like'') me ''like'') me = None"
    and "current_reaction (react (react (react update me ''like'') me ''like'') me ''like'') me
           = Some ''like''"
proof -
  let ?u1 = "react update me ''like''"
  let ?u2 = "react ?u1 me ''like''"
  have r1: "reactions_of me ?u1 = [\<lparr>user = me, type = ''like''\<rparr>]"
    by (rule react_from_none(1) [OF assms])
  then show c1: "current_reaction ?u1 me = Some ''like''"
    by (simp add: current_reaction_filter)
  have "reactions_of me ?u2 = tl (reactions_of me ?u1)"
    by (rule react_remove(1) [OF c1])
  with r1 have "reactions_of me ?u2 = []" by simp
  then show c2: "current_reaction ?u2 me = None"
    by (rule current_reaction_empty)
  have "reactions_of me (react ?u2 me ''like'') = [\<lparr>user = me, type = ''like''\<rparr>]"
    by (rule react_from_none(1) [OF c2])
  then show "current_reaction (react ?u2 me ''like'') me = Some ''like''"
    by (simp add: current_reaction_filter)
qed

text \<open>
  Claim C1, as the code has it. For a requested type \<^verbatim>\<open>like\<close> or \<^verbatim>\<open>dislike\<close>:
  when the user has no reaction on the update, a reaction of the requested type is
  appended and the counter of that type grows by 1; when the user's reaction has the
  requested type, that reaction leaves the list (the user then has none, if it was the
  only one) and the counter of that type becomes \<open>max 0 (count - 1)\<close>, which is
  \<open>count - 1\<close> whenever the counter was at least 1; when it has the other type, its type is
  switched, the counter of the requested type grows by 1 and the counter of the other type
  becomes \<open>max 0 (count - 1)\<close>. The reactions of other users and the counter not named
  are left alone. Starting from no reaction, liking twice leaves the user with no
  reaction, and a third like restores it.
\<close>

theorem react_transition_table:
  assumes v: "valid_type rt"
  shows
    "(current_reaction update me = None \<longrightarrow>
        reactions (react update me rt) = reactions update @ [\<lparr>user = me, type = rt\<rparr>] \<and>
        current_reaction (react update me rt) me = Some rt \<and>
        cached rt (react update me rt) = cached rt update + 1 \<and>
        cached (other_type rt) (react update me rt) = cached (other_type rt) update) \<and>
     (current_reaction update me = Some rt \<longrightarrow>
        reactions_of me (react update me rt) = tl (reactions_of me update) \<and>
        reactions_of_others me (react update me rt) = reactions_of_others me update \<and>
        (length (reactions_of me update) = 1 \<longrightarrow>
           current_reaction (react update me rt) me = None) \<and>
        cached rt (react update me rt) = max 0 (cached rt update - 1) \<and>
        (1 \<le> cached rt update \<longrightarrow>
           cached rt (react update me rt) = cached rt update - 1) \<and>
        cached (other_type rt) (react update me rt) = cached (other_type rt) update) \<and>
     (current_reaction update me = Some (other_type rt) \<longrightarrow>
        reactions_of me (react update me rt) =
          \<lparr>user = me, type = rt\<rparr> # tl (reactions_of me update) \<and>
        reactions_of_others me (react update me rt) = reactions_of_others me update \<and>
        current_reaction (react update me rt) me = Some rt \<and>
        cached rt (react update me rt) = cached rt update + 1 \<and>
        cached (other_type rt) (react update me rt) =
          max 0 (cached (other_type rt) update - 1) \<and>
        (1 \<le> cached (other_type rt) update \<longrightarrow>
           cached (other_type rt) (react update me rt) = cached (other_type rt) update - 1)) \<and>
     (current_reaction update me = None \<longrightarrow>
        current_reaction (react update me ''like'') me = Some ''like'' \<and>
        current_reaction (react (react update me ''like'') me ''like'') me = None \<and>
        current_reaction (react (react (react update me ''like'') me ''like'') me ''like'') me
          = Some ''like'')"
proof -
  have none: "current_reaction update me = None \<longrightarrow>
        reactions (react update me rt) = reactions update @ [\<lparr>user = me, type = rt\<rparr>] \<and>
        current_reaction (react update me rt) me = Some rt \<and>
        cached rt (react update me rt) = cached rt update + 1 \<and>
        cached (other_type rt) (react update me rt) = cached (other_type rt) update"
  proof
    assume a: "current_reaction update me = None"
    have "current_reaction (react update me rt) me = Some rt"
      using current_reaction_singleton [OF react_from_none(1) [OF a, of rt]] by simp
    then show "reactions (react update me rt) = reactions update @ [\<lparr>user = me, type = rt\<rparr>] \<and>
        current_reaction (react update me rt) me = Some rt \<and>
        cached rt (react update me rt) = cached rt update + 1 \<and>
        cached (other_type rt) (react update me rt) = cached (other_type rt) update"
      using react_none(1) [OF a] react_counts_none [OF a] by simp
  qed
  have same: "current_reaction update me = Some rt \<longrightarrow>
        reactions_of me (react update me rt) = tl (reactions_of me update) \<and>
        reactions_of_others me (react update me rt) = reactions_of_others me update \<and>
        (length (reactions_of me update) = 1 \<longrightarrow>
           current_reaction (react update me rt) me = None) \<and>
        cached rt (react update me rt) = max 0 (cached rt update - 1) \<and>
        (1 \<le> cached rt update \<longrightarrow>
           cached rt (react update me rt) = cached rt update - 1) \<and>
        cached (other_type rt) (react update me rt) = cached (other_type rt) update"
  proof
    assume a: "current_reaction update me = Some rt"
    have t: "reactions_of me (react update me rt) = tl (reactions_of me update)"
      by (rule react_remove(1) [OF a])
    have one: "length (reactions_of me update) = 1 \<longrightarrow>
           current_reaction (react update me rt) me = None"
    proof
      assume "length (reactions_of me update) = 1"
      then have "tl (reactions_of me update) = []"
        by (cases "reactions_of me update") simp_all
      with t show "current_reaction (react update me rt) me = None"
        by (simp add: current_reaction_empty)
    qed
    have c: "cached rt (react update me rt) = max 0 (cached rt update - 1)"
      by (rule react_counts_same(1) [OF a])
    then have c1: "1 \<le> cached rt update \<longrightarrow>
           cached rt (react update me rt) = cached rt update - 1"
      by simp
    from t react_remove(2) [OF a] one c c1 react_counts_same(2) [OF a]
    show "reactions_of me (react update me rt) = tl (reactions_of me update) \<and>
        reactions_of_others me (react update me rt) = reactions_of_others me update \<and>
        (length (reactions_of me update) = 1 \<longrightarrow>
           current_reaction (react update me rt) me = None) \<and>
        cached rt (react update me rt) = max 0 (cached rt update - 1) \<and>
        (1 \<le> cached rt update \<longrightarrow>
           cached rt (react update me rt) = cached rt update - 1) \<and>
        cached (other_type rt) (react update me rt) = cached (other_type rt) update"
      by blast
  qed
  have flip: "current_reaction update me = Some (other_type rt) \<longrightarrow>
        reactions_of me (react update me rt) =
          \<lparr>user = me, type = rt\<rparr> # tl (reactions_of me update) \<and>
        reactions_of_others me (react update me rt) = reactions_of_others me update \<and>
        current_reaction (react update me rt) me = Some rt \<and>
        cached rt (react update me rt) = cached rt update + 1 \<and>
        cached (other_type rt) (react update me rt) =
          max 0 (cached (other_type rt) update - 1) \<and>
        (1 \<le> cached (other_type rt) update \<longrightarrow>
           cached (other_type rt) (react update me rt) = cached (other_type rt) update - 1)"
  proof
    assume a: "current_reaction update me = Some (other_type rt)"
    have ne: "other_type rt \<noteq> rt" by (rule other_type_neq [OF v])
    have f: "reactions_of me (react update me rt) =
          \<lparr>user = me, type = rt\<rparr> # tl (reactions_of me update)"
      by (rule react_flip(1) [OF a ne])
    then have cur: "current_reaction (react update me rt) me = Some rt"
      by (simp add: current_reaction_filter)
    have c: "cached (other_type rt) (react update me rt) =
          max 0 (cached (other_type rt) update - 1)"
      by (rule react_counts_flip(2) [OF a ne])
    then have c1: "1 \<le> cached (other_type rt) update \<longrightarrow>
           cached (other_type rt) (react update me rt) = cached (other_type rt) update - 1"
      by simp
    from f react_flip(2) [OF a ne] cur react_counts_flip(1) [OF a ne] c c1
    show "reactions_of me (react update me rt) =
          \<lparr>user = me, type = rt\<rparr> # tl (reactions_of me update) \<and>
        reactions_of_others me (react update me rt) = reactions_of_others me update \<and>
        current_reaction (react update me rt) me = Some rt \<and>
        cached rt (react update me rt) = cached rt update + 1 \<and>
        cached (other_type rt) (react update me rt) =
          max 0 (cached (other_type rt) update - 1) \<and>
        (1 \<le> cached (other_type rt) update \<longrightarrow>
           cached (other_type rt) (react update me rt) = cached (other_type rt) update - 1)"
      by blast
  qed
  have thrice: "current_reaction update me = None \<longrightarrow>
        current_reaction (react update me ''like'') me = Some ''like'' \<and>
        current_reaction (react (react update me ''like'') me ''like'') me = None \<and>
        current_reaction (react (react (react update me ''like'') me ''like'') me ''like'') me
          = Some ''like''"
    using like_three_times [of update me] by blast
  from none same flip thrice show ?thesis by blast
qed

text \<open>The table at three inputs: a first like, a second like, and a dislike after a
  like.\<close>

theorem react_transition_table_witness:
  "valid_type ''like'' \<and> valid_type ''dislike'' \<and>
   current_reaction fresh_update ''u1'' = None \<and>
   reactions (react fresh_update ''u1'' ''like'') =
     reactions fresh_update @ [\<lparr>user = ''u1'', type = ''like''\<rparr>] \<and>
   cached ''like'' (react fresh_update ''u1'' ''like'') = cached ''like'' fresh_update + 1 \<and>
   current_reaction (react (react fresh_update ''u1'' ''like'') ''u1'' ''like'') ''u1'' = None \<and>
   current_reaction liked_update ''u1'' = Some ''like'' \<and>
   length (reactions_of ''u1'' liked_update) = 1 \<and>
   1 \<le> cached ''like'' liked_update \<and>
   current_reaction (react liked_update ''u1'' ''like'') ''u1'' = None \<and>
   cached ''like'' (react liked_update ''u1'' ''like'') = cached ''like'' liked_update - 1 \<and>
   current_reaction liked_update ''u1'' = Some (other_type ''dislike'') \<and>
   1 \<le> cached (other_type ''dislike'') liked_update \<and>
   current_reaction (react liked_update ''u1'' ''dislike'') ''u1'' = Some ''dislike'' \<and>
   cached ''dislike'' (react liked_update ''u1'' ''dislike'') =
     cached ''dislike'' liked_update + 1 \<and>
   cached (other_type ''dislike'') (react liked_update ''u1'' ''dislike'') =
     cached (other_type ''dislike'') liked_update - 1"
proof -
  have v1: "valid_type ''like''" and v2: "valid_type ''dislike''"
    by (simp_all add: valid_type_def)
  have h1: "current_reaction fresh_update ''u1'' = None"
    by (simp add: current_reaction_def fresh_update_def newEvent_def)
  have h2: "current_reaction liked_update ''u1'' = Some ''like''"
    by (simp add: current_reaction_def liked_update_def)
  have h3: "length (reactions_of ''u1'' liked_update) = 1"
    by (simp add: reactions_of_def liked_update_def)
  have h4: "1 \<le> cached ''like'' liked_update"
    by (simp add: cached_def liked_update_def)
  have o: "other_type ''dislike'' = ''like''"
    by (simp add: other_type_def)
  note a = react_transition_table [OF v1, of fresh_update "''u1''"]
  note b = react_transition_table [OF v1, of liked_update "''u1''"]
  note c = react_transition_table [OF v2, of liked_update "''u1''"]
  from a h1 have a': "reactions (react fresh_update ''u1'' ''like'') =
     reactions fresh_update @ [\<lparr>user = ''u1'', type = ''like''\<rparr>] \<and>
   cached ''like'' (react fresh_update ''u1'' ''like'') = cached ''like'' fresh_update + 1 \<and>
   current_reaction (react (react fresh_update ''u1'' ''like'') ''u1'' ''like'') ''u1'' = None"
    by blast
  from b h2 h3 h4 have b': "current_reaction (react liked_update ''u1'' ''like'') ''u1'' = None \<and>
   cached ''like'' (react liked_update ''u1'' ''like'') = cached ''like'' liked_update - 1"
    by blast
  from c h2 h4 have c': "current_reaction (react liked_update ''u1'' ''dislike'') ''u1'' = Some ''dislike'' \<and>
   cached ''dislike'' (react liked_update ''u1'' ''dislike'') =
     cached ''dislike'' liked_update + 1 \<and>
   cached (other_type ''dislike'') (react liked_update ''u1'' ''dislike'') =
     cached (other_type ''dislike'') liked_update - 1"
    unfolding o by blast
  from v1 v2 h1 h2 h3 h4 a' b' c' show ?thesis
    unfolding o by blast
qed

text \<open>
  Claim C1 as written says the counter decreases by 1 at every removal. On the drifted
  update the user's like is removed and the counter stays at 0.
\<close>

theorem react_decrement_counterexample:
  "current_reaction drifted_update ''u1'' = Some ''like'' \<and>
   cached ''like'' drifted_update = 0 \<and>
   cached ''like'' (react drifted_update ''u1'' ''like'') = 0 \<and>
   cached ''like'' (react drifted_update ''u1'' ''like'') \<noteq> cached ''like'' drifted_update - 1"
  by (simp add: current_reaction_def drifted_update_def fresh_update_def newEvent_def
      react_def cached_def splice1_def)

subsection \<open>Counting reactions\<close>

lemma count_type_splice1:
  "i < length rs \<Longrightarrow>
   count_type t (splice1 i rs) = count_type t rs - (if type (rs ! i) = t then 1 else 0)"
proof -
  assume i: "i < length rs"
  have "rs = take i rs @ rs ! i # drop (Suc i) rs"
    using i by (rule id_take_nth_drop)
  then have "count_type t rs = count_type t (take i rs @ rs ! i # drop (Suc i) rs)"
    by simp
  then show ?thesis
    by (simp add: count_type_def splice1_def)
qed

lemma count_type_update:
  "i < length rs \<Longrightarrow>
   count_type t (rs[i := r]) =
     count_type t rs - (if type (rs ! i) = t then 1 else 0) + (if type r = t then 1 else 0)"
proof -
  assume i: "i < length rs"
  have a: "rs = take i rs @ rs ! i # drop (Suc i) rs"
    using i by (rule id_take_nth_drop)
  have b: "rs[i := r] = take i rs @ r # drop (Suc i) rs"
    using i by (rule upd_conv_take_nth_drop)
  have "count_type t rs = count_type t (take i rs @ rs ! i # drop (Suc i) rs)"
    using a by simp
  then show ?thesis
    unfolding b by (simp add: count_type_def)
qed

lemma count_type_snoc:
  "count_type t (rs @ [r]) = count_type t rs + (if type r = t then 1 else 0)"
  by (simp add: count_type_def)

lemma count_type_pos: "i < length rs \<Longrightarrow> type (rs ! i) = t \<Longrightarrow> 1 \<le> count_type t rs"
proof -
  assume i: "i < length rs" and t: "type (rs ! i) = t"
  then have "rs ! i \<in> set (filter (\<lambda>r. type r = t) rs)" by simp
  then have "filter (\<lambda>r. type r = t) rs \<noteq> []" by (metis empty_iff empty_set)
  then show ?thesis by (simp add: count_type_def Suc_le_eq)
qed

lemma react_stored_ok:
  assumes v: "valid_type rt" and w: "well_typed update" and c: "counts_consistent update"
  shows "counts_consistent (react update me rt) \<and> well_typed (react update me rt)"
proof (cases "findIndex (\<lambda>r. user r = me) (reactions update)")
  case None
  with v w c show ?thesis
    by (auto simp: react_def counts_consistent_def well_typed_def valid_type_def count_type_snoc Let_def)
next
  case (Some i)
  from findIndex_Some [OF Some] have i: "i < length (reactions update)" by simp
  from w i have vt: "valid_type (type (reactions update ! i))"
    by (simp add: well_typed_def list_all_length)
  have p: "1 \<le> count_type (type (reactions update ! i)) (reactions update)"
    using i by (rule count_type_pos) simp
  have wt: "well_typed (react update me rt)"
    using v w i Some
    by (auto simp: react_def well_typed_def Let_def splice1_def list_all_iff
        dest: in_set_takeD in_set_dropD set_update_subset_insert [THEN subsetD])
  have cc: "counts_consistent (react update me rt)"
    using v c vt p i Some
    by (auto simp: react_def counts_consistent_def valid_type_def Let_def
        count_type_splice1 count_type_update)
  from cc wt show ?thesis by simp
qed

lemma findById_in: "findById es i = Some e \<Longrightarrow> e \<in> set es"
  by (auto simp: findById_def find_Some_iff)

lemma saveUpdate_all: "list_all P es \<Longrightarrow> P update \<Longrightarrow> list_all P (saveUpdate es update)"
  by (auto simp: saveUpdate_def list_all_iff)

lemma updateReaction_events:
  "events (fst (updateReaction st sid data find_r save_r)) = events st \<or>
   (\<exists>d me update. data = Some d \<and> socket_user st sid = Some me \<and>
      findById (events st) (updateId d) = Some update \<and>
      events (fst (updateReaction st sid data find_r save_r)) =
        saveUpdate (events st) (react update me (reactionType d)))"
  by (auto simp: updateReaction_def Let_def split: option.splits db_result.splits)

text \<open>
  Claim C2: when the counters of an update equal the numbers of likes and dislikes in its
  reaction list, they do so again after a reaction of type \<^verbatim>\<open>like\<close> or \<^verbatim>\<open>dislike\<close> by
  any user; and when this holds of every stored update, it holds of every stored
  update after the \<^verbatim>\<open>updateReaction\<close> handler has run, whatever the store calls did.
\<close>

theorem updateReaction_preserves_counts:
  assumes v: "valid_type rt"
  shows "(well_typed update \<and> counts_consistent update \<longrightarrow>
            counts_consistent (react update me rt) \<and> well_typed (react update me rt)) \<and>
         (list_all stored_ok (events st) \<longrightarrow>
            list_all stored_ok
              (events (fst (updateReaction st sid
                 (Some \<lparr>updateId = i, reactionType = rt\<rparr>) find_r save_r))))"
proof -
  have pure: "well_typed update \<and> counts_consistent update \<longrightarrow>
            counts_consistent (react update me rt) \<and> well_typed (react update me rt)"
    using react_stored_ok [OF v] by blast
  have handler: "list_all stored_ok (events st) \<longrightarrow>
            list_all stored_ok
              (events (fst (updateReaction st sid
                 (Some \<lparr>updateId = i, reactionType = rt\<rparr>) find_r save_r)))"
  proof
    assume a: "list_all stored_ok (events st)"
    let ?data = "Some \<lparr>updateId = i, reactionType = rt\<rparr>"
    from updateReaction_events [of st sid ?data find_r save_r]
    show "list_all stored_ok (events (fst (updateReaction st sid ?data find_r save_r)))"
    proof
      assume "events (fst (updateReaction st sid ?data find_r save_r)) = events st"
      with a show ?thesis by simp
    next
      assume "\<exists>d me update. ?data = Some d \<and> socket_user st sid = Some me \<and>
        findById (events st) (updateId d) = Some update \<and>
        events (fst (updateReaction st sid ?data find_r save_r)) =
          saveUpdate (events st) (react update me (reactionType d))"
      then obtain me u where f: "findById (events st) i = Some u"
        and e: "events (fst (updateReaction st sid ?data find_r save_r)) =
          saveUpdate (events st) (react u me rt)"
        by auto
      from findById_in [OF f] a have "stored_ok u" by (simp add: list_all_iff)
      then have "stored_ok (react u me rt)"
        using react_stored_ok [OF v, of u me] by (simp add: stored_ok_def)
      with a show ?thesis unfolding e by (rule saveUpdate_all)
    qed
  qed
  from pure handler show ?thesis by blast
qed

text \<open>User \<^verbatim>\<open>u2\<close> dislikes the liked update.\<close>

theorem updateReaction_preserves_counts_witness:
  "valid_type ''dislike'' \<and> well_typed liked_update \<and> counts_consistent liked_update \<and>
   list_all stored_ok (events example_server) \<and>
   counts_consistent (react liked_update ''u2'' ''dislike'') \<and>
   well_typed (react liked_update ''u2'' ''dislike'') \<and>
   list_all stored_ok
     (events (fst (updateReaction example_server ''s2''
        (Some \<lparr>updateId = ''e1'', reactionType = ''dislike''\<rparr>) Ok Ok)))"
proof -
  have v: "valid_type ''dislike''" by (simp add: valid_type_def)
  have w: "well_typed liked_update"
    by (simp add: well_typed_def liked_update_def valid_type_def)
  have c: "counts_consistent liked_update"
    by (simp add: counts_consistent_def liked_update_def count_type_def fresh_update_def newEvent_def)
  have e: "events example_server = [liked_update]"
    by (simp add: example_server_def userLogin_def initializeSocket_def Let_def)
  have s: "list_all stored_ok (events example_server)"
    unfolding e using w c by (simp add: stored_ok_def)
  from updateReaction_preserves_counts [OF v, of liked_update "''u2''" example_server "''s2''" "''e1''" Ok Ok]
    v w c s
  show ?thesis by blast
qed

text \<open>The restriction to the two types matters: the handler does not check the requested
  type, and any string other than \<^verbatim>\<open>like\<close> takes the else branches. A first reaction of
  such a type is stored under its own name and counted as a dislike.\<close>

lemma react_unknown_type:
  assumes "current_reaction update me = None" and "rt \<noteq> ''like''"
  shows "reactions (react update me rt) = reactions update @ [\<lparr>user = me, type = rt\<rparr>]"
    and "dislikes (react update me rt) = dislikes update + 1"
    and "likes (react update me rt) = likes update"
  using assms react_none [of update me rt] by simp_all

subsection \<open>The counters stay non-negative\<close>

lemma react_nonneg: "nonneg_counts update \<Longrightarrow> nonneg_counts (react update me rt)"
  by (auto simp: react_def Let_def nonneg_counts_def split: option.splits)

lemma react_all_nonneg: "nonneg_counts update \<Longrightarrow> nonneg_counts (react_all update ops)"
  by (induction update ops rule: react_all.induct) (simp_all add: react_nonneg)

lemma events_joinUserRoom: "events (fst (joinUserRoom st sid u)) = events st"
  by (simp add: joinUserRoom_def)

lemma events_sendMessage: "events (fst (sendMessage st sid data r1 r2 r3)) = events st"
  by (simp add: sendMessage_def Let_def split: option.splits db_result.splits)

lemma events_userLogin: "events (fst (userLogin st sid u now r1 r2)) = events st"
  by (simp add: userLogin_def Let_def split: db_result.splits)

lemma events_userLogout: "events (fst (userLogout st sid u now r1 r2)) = events st"
  by (simp add: userLogout_def Let_def split: db_result.splits)

lemma events_disconnect: "events (fst (disconnect st sid now r1 r2)) = events st"
  by (simp add: disconnect_def Let_def split: prod.splits option.splits db_result.splits)

lemma events_updateSettings: "events (fst (updateSettings st sid p r1 r2)) = events st"
  by (simp add: updateSettings_def Let_def split: option.splits db_result.splits)

lemma events_createUpdate:
  "events (fst (createUpdate st sid data new_id r1 r2)) = events st \<or>
   (\<exists>t d me. events (fst (createUpdate st sid data new_id r1 r2)) =
      events st @ [newEvent new_id t d me])"
  by (auto simp: createUpdate_def Let_def split: option.splits db_result.splits)

lemma step_nonneg:
  assumes a: "list_all nonneg_counts (events st)"
  shows "list_all nonneg_counts (events (fst (step st e)))"
proof (cases e)
  case (CreateUpdate sid data new_id r1 r2)
  from events_createUpdate [of st sid data new_id r1 r2] a show ?thesis
    unfolding CreateUpdate by (auto simp: newEvent_def nonneg_counts_def)
next
  case (UpdateReaction sid data r1 r2)
  from updateReaction_events [of st sid data r1 r2]
  show ?thesis
  proof
    assume "events (fst (updateReaction st sid data r1 r2)) = events st"
    with a show ?thesis unfolding UpdateReaction by simp
  next
    assume "\<exists>d me update. data = Some d \<and> socket_user st sid = Some me \<and>
      findById (events st) (updateId d) = Some update \<and>
      events (fst (updateReaction st sid data r1 r2)) =
        saveUpdate (events st) (react update me (reactionType d))"
    then obtain d :: reaction_data and me u
      where f: "findById (events st) (updateId d) = Some u"
      and e: "events (fst (updateReaction st sid data r1 r2)) =
        saveUpdate (events st) (react u me (reactionType d))"
      by auto
    from findById_in [OF f] a have "nonneg_counts u" by (simp add: list_all_iff)
    then have "nonneg_counts (react u me (reactionType d))" by (rule react_nonneg)
    with a have "list_all nonneg_counts (saveUpdate (events st) (react u me (reactionType d)))"
      by (rule saveUpdate_all)
    then show ?thesis unfolding UpdateReaction using e by simp
  qed
qed (use a in \<open>simp_all add: events_joinUserRoom events_sendMessage events_userLogin
      events_userLogout events_disconnect events_updateSettings\<close>)

lemma run_nonneg:
  "list_all nonneg_counts (events st) \<Longrightarrow> list_all nonneg_counts (events (run st evs))"
  by (induction st evs rule: run.induct) (simp_all add: step_nonneg)

text \<open>
  Claim C8: from an update whose counters are not negative, whether or not they agree
  with the reaction list, no sequence of reactions (any users, any requested types) makes
  a counter negative; and when no stored update has a negative counter, none has one
  after any sequence of inbound events, whatever the store calls did. The decrements are
  the four \<^verbatim>\<open>Math.max(0, n - 1)\<close> of \<open>react\<close>.
\<close>

theorem counts_never_negative:
  "(nonneg_counts update \<longrightarrow> nonneg_counts (react_all update ops)) \<and>
   (list_all nonneg_counts (events st) \<longrightarrow> list_all nonneg_counts (events (run st evs)))"
  using react_all_nonneg [of update ops] run_nonneg [of st evs] by blast

text \<open>From the drifted update, whose like counter is 0 although a like is in the list.\<close>

theorem counts_never_negative_witness:
  "nonneg_counts drifted_update \<and>
   nonneg_counts (react_all drifted_update
     [(''u1'', ''like''), (''u1'', ''like''), (''u2'', ''dislike''), (''u2'', ''like'')]) \<and>
   list_all nonneg_counts (events (initializeSocket [] [] [] [drifted_update])) \<and>
   list_all nonneg_counts (events (run (initializeSocket [] [] [] [drifted_update])
     [UserLogin ''s1'' ''u1'' 0 Ok Ok,
      UpdateReaction ''s1'' (Some \<lparr>updateId = ''e1'', reactionType = ''like''\<rparr>) Ok Ok,
      UpdateReaction ''s1'' (Some \<lparr>updateId = ''e1'', reactionType = ''dislike''\<rparr>) Ok Ok]))"
proof -
  have n: "nonneg_counts drifted_update"
    by (simp add: nonneg_counts_def drifted_update_def fresh_update_def newEvent_def)
  have l: "list_all nonneg_counts (events (initializeSocket [] [] [] [drifted_update]))"
    using n by (simp add: initializeSocket_def)
  from counts_never_negative [of drifted_update
      "[(''u1'', ''like''), (''u1'', ''like''), (''u2'', ''dislike''), (''u2'', ''like'')]"
      "initializeSocket [] [] [] [drifted_update]"
      "[UserLogin ''s1'' ''u1'' 0 Ok Ok,
      UpdateReaction ''s1'' (Some \<lparr>updateId = ''e1'', reactionType = ''like''\<rparr>) Ok Ok,
      UpdateReaction ''s1'' (Some \<lparr>updateId = ''e1'', reactionType = ''dislike''\<rparr>) Ok Ok]"]
    n l
  show ?thesis by blast
qed

section \<open>Properties of the connection registry\<close>

subsection \<open>The map operations\<close>

lemma set_update_subset: "set (AList.update k v al) \<subseteq> insert (k, v) (set al)"
  by (induction al) auto

lemma map_of_associate:
  "map_of (associate m u s) v =
     (if v = u then Some (insert s (case map_of m u of None \<Rightarrow> {} | Some S \<Rightarrow> S))
      else map_of m v)"
  by (simp add: associate_def Let_def update_conv' split: option.splits)

lemma associate_ok: "registry_ok m \<Longrightarrow> registry_ok (associate m u s)"
proof -
  assume a: "registry_ok m"
  then have d: "distinct (map fst m)" and n: "\<forall>(k, S)\<in>set m. S \<noteq> {}"
    by (simp_all add: registry_ok_def list_all_iff)
  have d': "distinct (map fst (associate m u s))"
    using d by (simp add: associate_def Let_def distinct_update split: option.splits)
  have "(k, S) \<in> set (associate m u s) \<Longrightarrow> S \<noteq> {}" for k S
  proof -
    assume "(k, S) \<in> set (associate m u s)"
    with d' have "map_of (associate m u s) k = Some S" by simp
    then show "S \<noteq> {}"
      using n by (auto simp: map_of_associate split: if_splits dest: map_of_SomeD)
  qed
  with d' show ?thesis by (auto simp: registry_ok_def list_all_iff)
qed

lemma delete_ok: "registry_ok m \<Longrightarrow> registry_ok (AList.delete u m)"
proof -
  assume a: "registry_ok m"
  have "set (AList.delete u m) \<subseteq> set m" by (auto simp: AList.delete_eq)
  with a show ?thesis
    by (auto simp: registry_ok_def list_all_iff distinct_delete)
qed

lemma disconnect_scan_keys:
  "fst ` set (fst (disconnect_scan s m)) \<subseteq> fst ` set m"
proof (induction m)
  case Nil
  then show ?case by simp
next
  case (Cons p m)
  obtain u S where p: "p = (u, S)" by (cases p)
  show ?case
  proof (cases "s \<in> S")
    case True
    then show ?thesis by (auto simp: p)
  next
    case False
    obtain m' r where r: "disconnect_scan s m = (m', r)" by (cases "disconnect_scan s m")
    with Cons.IH have "fst ` set m' \<subseteq> fst ` set m" by simp
    with False r show ?thesis by (auto simp: p)
  qed
qed

lemma disconnect_scan_ok: "registry_ok m \<Longrightarrow> registry_ok (fst (disconnect_scan s m))"
proof (induction m)
  case Nil
  then show ?case by simp
next
  case (Cons p m)
  obtain u S where p: "p = (u, S)" by (cases p)
  from Cons.prems have m: "registry_ok m" and u: "u \<notin> fst ` set m" and S: "S \<noteq> {}"
    by (auto simp: registry_ok_def p)
  show ?case
  proof (cases "s \<in> S")
    case True
    with m u show ?thesis
      by (auto simp: p registry_ok_def)
  next
    case False
    obtain m' r where r: "disconnect_scan s m = (m', r)" by (cases "disconnect_scan s m")
    from Cons.IH [OF m] r have ih: "registry_ok m'" by simp
    from u disconnect_scan_keys [of s m] r have "u \<notin> fst ` set m'"
      by auto
    with ih S False r show ?thesis
      by (auto simp: p registry_ok_def)
  qed
qed

lemma disconnect_scan_absent:
  "\<forall>(u, S)\<in>set m. s \<notin> S \<Longrightarrow> disconnect_scan s m = (m, None)"
  by (induction m) auto

lemma disconnect_scan_owner:
  assumes "distinct (map fst m)" and "map_of m u = Some S" and "s \<in> S"
    and "\<forall>(v, T)\<in>set m. v \<noteq> u \<longrightarrow> s \<notin> T"
  shows "snd (disconnect_scan s m) = (if S = {s} then Some u else None) \<and>
         map_of (fst (disconnect_scan s m)) =
           (if S = {s} then (map_of m)(u := None) else (map_of m)(u \<mapsto> S - {s}))"
  using assms
proof (induction m)
  case Nil
  then show ?case by simp
next
  case (Cons p m)
  obtain w T where p: "p = (w, T)" by (cases p)
  show ?case
  proof (cases "w = u")
    case True
    from Cons.prems(1,2) p True have T: "T = S" and nu: "u \<notin> fst ` set m" by auto
    from nu have none: "map_of m u = None" by (simp add: map_of_eq_None_iff)
    from Cons.prems(3) have e: "S - {s} = {} \<longleftrightarrow> S = {s}" by auto
    have "(map_of m)(u := None) = map_of m" using none by (simp add: fun_eq_iff)
    then show ?thesis
      using Cons.prems(3) e by (simp add: p True T)
  next
    case False
    from Cons.prems(4) p False have nT: "s \<notin> T" by auto
    from Cons.prems(2) p False have mu: "map_of m u = Some S" by simp
    from Cons.prems(1) have d: "distinct (map fst m)" by simp
    from Cons.prems(4) have o: "\<forall>(v, T)\<in>set m. v \<noteq> u \<longrightarrow> s \<notin> T" by simp
    obtain m' r where r: "disconnect_scan s m = (m', r)" by (cases "disconnect_scan s m")
    from Cons.IH [OF d mu Cons.prems(3) o] r
    have ih: "r = (if S = {s} then Some u else None)"
      "map_of m' = (if S = {s} then (map_of m)(u := None) else (map_of m)(u \<mapsto> S - {s}))"
      by simp_all
    show ?thesis
      using nT r ih False by (auto simp: p fun_eq_iff)
  qed
qed

subsection \<open>What each handler does to the map\<close>

lemma registry_joinUserRoom: "onlineUsersMap (fst (joinUserRoom st sid u)) = onlineUsersMap st"
  by (simp add: joinUserRoom_def)

lemma registry_sendMessage:
  "onlineUsersMap (fst (sendMessage st sid data r1 r2 r3)) = onlineUsersMap st"
  by (simp add: sendMessage_def Let_def split: option.splits db_result.splits)

lemma registry_createUpdate:
  "onlineUsersMap (fst (createUpdate st sid data new_id r1 r2)) = onlineUsersMap st"
  by (simp add: createUpdate_def Let_def split: option.splits db_result.splits)

lemma registry_updateReaction:
  "onlineUsersMap (fst (updateReaction st sid data r1 r2)) = onlineUsersMap st"
  by (simp add: updateReaction_def Let_def split: option.splits db_result.splits)

lemma registry_updateSettings:
  "onlineUsersMap (fst (updateSettings st sid p r1 r2)) = onlineUsersMap st"
  by (simp add: updateSettings_def Let_def split: option.splits db_result.splits)

lemma registry_userLogin:
  "onlineUsersMap (fst (userLogin st sid u now r1 r2)) = associate (onlineUsersMap st) u sid"
  by (simp add: userLogin_def Let_def split: db_result.splits)

lemma registry_userLogout:
  "onlineUsersMap (fst (userLogout st sid u now r1 r2)) = AList.delete u (onlineUsersMap st)"
  by (simp add: userLogout_def Let_def split: db_result.splits)

lemma registry_disconnect:
  "onlineUsersMap (fst (disconnect st sid now r1 r2)) = fst (disconnect_scan sid (onlineUsersMap st))"
  by (simp add: disconnect_def Let_def split: prod.splits option.splits db_result.splits)

lemma step_registry_ok:
  "registry_ok (onlineUsersMap st) \<Longrightarrow> registry_ok (onlineUsersMap (fst (step st e)))"
  by (cases e)
    (simp_all add: registry_joinUserRoom registry_sendMessage registry_createUpdate
      registry_updateReaction registry_updateSettings registry_userLogin registry_userLogout
      registry_disconnect associate_ok delete_ok disconnect_scan_ok)

lemma run_registry_ok:
  "registry_ok (onlineUsersMap st) \<Longrightarrow> registry_ok (onlineUsersMap (run st evs))"
  by (induction st evs rule: run.induct) (simp_all add: step_registry_ok)

lemma reachable_registry_ok:
  "registry_ok (onlineUsersMap (run (initializeSocket us ss ms es) evs))"
  by (rule run_registry_ok) (simp add: initializeSocket_def registry_ok_def)

subsection \<open>Online means a connection is left\<close>

lemma online_iff:
  assumes "registry_ok (onlineUsersMap st)"
  shows "isOnlineUser st u \<longleftrightarrow> connections st u \<noteq> {}"
proof (cases "map_of (onlineUsersMap st) u")
  case None
  then show ?thesis by (simp add: isOnlineUser_def connections_def)
next
  case (Some S)
  then have "(u, S) \<in> set (onlineUsersMap st)" by (rule map_of_SomeD)
  with assms have "S \<noteq> {}" by (auto simp: registry_ok_def list_all_iff)
  with Some show ?thesis by (simp add: isOnlineUser_def connections_def)
qed

lemma owners_subset:
  "set (owners st s) \<subseteq> {u} \<longleftrightarrow> (\<forall>(v, T)\<in>set (onlineUsersMap st). v \<noteq> u \<longrightarrow> s \<notin> T)"
  by (auto simp: owners_def)

lemma owners_empty:
  "owners st s = [] \<longleftrightarrow> (\<forall>(v, T)\<in>set (onlineUsersMap st). s \<notin> T)"
  by (auto simp: owners_def filter_empty_conv)

lemma connections_userLogin:
  "connections (fst (userLogin st sid u now r1 r2)) v =
     (if v = u then insert sid (connections st u) else connections st v)"
  by (simp add: connections_def registry_userLogin map_of_associate split: option.splits)

lemma disconnect_owner:
  assumes ok: "registry_ok (onlineUsersMap st)" and s: "s \<in> connections st u"
    and o: "set (owners st s) \<subseteq> {u}"
  shows "connections (fst (disconnect st s now r1 r2)) u = connections st u - {s}"
    and "isOnlineUser (fst (disconnect st s now r1 r2)) u \<longleftrightarrow> connections st u \<noteq> {s}"
    and "v \<noteq> u \<Longrightarrow> connections (fst (disconnect st s now r1 r2)) v = connections st v"
    and "snd (disconnect_scan s (onlineUsersMap st)) =
           (if connections st u = {s} then Some u else None)"
proof -
  from s obtain S where S: "map_of (onlineUsersMap st) u = Some S" and sS: "s \<in> S"
    by (auto simp: connections_def split: option.splits)
  from ok have d: "distinct (map fst (onlineUsersMap st))" by (simp add: registry_ok_def)
  from o have o': "\<forall>(v, T)\<in>set (onlineUsersMap st). v \<noteq> u \<longrightarrow> s \<notin> T"
    by (simp add: owners_subset)
  note sc = disconnect_scan_owner [OF d S sS o']
  from S have c: "connections st u = S" by (simp add: connections_def)
  from sS have e: "S - {s} = {} \<longleftrightarrow> S = {s}" by auto
  show "connections (fst (disconnect st s now r1 r2)) u = connections st u - {s}"
    using sc e S by (auto simp: connections_def registry_disconnect)
  show "isOnlineUser (fst (disconnect st s now r1 r2)) u \<longleftrightarrow> connections st u \<noteq> {s}"
    using sc S by (auto simp: isOnlineUser_def connections_def registry_disconnect)
  show "connections (fst (disconnect st s now r1 r2)) v = connections st v" if "v \<noteq> u"
    using sc that by (simp add: connections_def registry_disconnect)
  show "snd (disconnect_scan s (onlineUsersMap st)) =
           (if connections st u = {s} then Some u else None)"
    using sc by (simp add: c)
qed

lemma disconnect_marks_offline:
  assumes ok: "registry_ok (onlineUsersMap st)" and s: "s \<in> connections st u"
    and o: "set (owners st s) \<subseteq> {u}"
  shows "UpdateUser u False now \<in> set (snd (disconnect st s now Ok r2)) \<longleftrightarrow>
           connections st u = {s} \<and> u \<noteq> []"
proof -
  obtain m' r where r: "disconnect_scan s (onlineUsersMap st) = (m', r)"
    by (cases "disconnect_scan s (onlineUsersMap st)")
  with disconnect_owner(4) [OF ok s o]
  have "r = (if connections st u = {s} then Some u else None)" by simp
  with r show ?thesis
    by (auto simp: disconnect_def Let_def emitOnlineUsers_def split: db_result.splits)
qed

lemma associate_entries:
  "(v, T) \<in> set (associate m u sid) \<Longrightarrow> v = u \<or> (v, T) \<in> set m"
proof -
  assume a: "(v, T) \<in> set (associate m u sid)"
  let ?m1 = "if map_of m u = None then AList.update u {} m else m"
  have m1: "(v, T) \<in> set ?m1 \<Longrightarrow> v = u \<or> (v, T) \<in> set m"
    using set_update_subset [of u "{}" m] by (auto split: if_splits)
  show ?thesis
  proof (cases "map_of ?m1 u")
    case None
    with a have "(v, T) \<in> set ?m1" by (simp add: associate_def Let_def)
    then show ?thesis by (rule m1)
  next
    case (Some S)
    with a have "(v, T) \<in> set (AList.update u (insert sid S) ?m1)"
      by (simp add: associate_def Let_def)
    with set_update_subset [of u "insert sid S" ?m1]
    have "(v, T) = (u, insert sid S) \<or> (v, T) \<in> set ?m1" by blast
    with m1 show ?thesis by blast
  qed
qed

lemma disconnect_scan_entries:
  "(v, T) \<in> set (fst (disconnect_scan s m)) \<Longrightarrow> \<exists>T'. (v, T') \<in> set m \<and> T \<subseteq> T'"
proof (induction m)
  case Nil
  then show ?case by simp
next
  case (Cons p m)
  obtain w R where p: "p = (w, R)" by (cases p)
  show ?case
  proof (cases "s \<in> R")
    case True
    with Cons.prems show ?thesis
      by (auto simp: p split: if_splits)
  next
    case False
    obtain m' r where r: "disconnect_scan s m = (m', r)" by (cases "disconnect_scan s m")
    with Cons.prems False have "(v, T) = (w, R) \<or> (v, T) \<in> set (fst (disconnect_scan s m))"
      by (auto simp: p)
    then show ?thesis
    proof
      assume "(v, T) = (w, R)"
      then show ?thesis by (auto simp: p)
    next
      assume "(v, T) \<in> set (fst (disconnect_scan s m))"
      from Cons.IH [OF this] show ?thesis by auto
    qed
  qed
qed

lemma owners_userLogin:
  "set (owners (fst (userLogin st sid u now r1 r2)) s) \<subseteq> insert u (set (owners st s))"
  by (auto simp: owners_def registry_userLogin dest!: associate_entries)

lemma owners_disconnect:
  "set (owners (fst (disconnect st sid now r1 r2)) s) \<subseteq> set (owners st s)"
  by (auto simp: owners_def registry_disconnect dest!: disconnect_scan_entries) force

lemma owners_keys: "set (owners st s) \<subseteq> fst ` set (onlineUsersMap st)"
  by (auto simp: owners_def)

lemma step_keys:
  assumes k: "fst ` set (onlineUsersMap st) \<subseteq> {u}"
    and e: "login_user e = None \<or> login_user e = Some u"
  shows "fst ` set (onlineUsersMap (fst (step st e))) \<subseteq> {u}"
proof (cases e)
  case (UserLogin sid v now r1 r2)
  with e have v: "v = u" by simp
  from k show ?thesis
    unfolding UserLogin v by (auto simp: registry_userLogin dest!: associate_entries)
next
  case (UserLogout sid v now r1 r2)
  from k dom_delete_subset [of v "onlineUsersMap st"] show ?thesis
    unfolding UserLogout by (auto simp: registry_userLogout)
next
  case (Disconnect sid now r1 r2)
  from k disconnect_scan_keys [of sid "onlineUsersMap st"] show ?thesis
    unfolding Disconnect by (auto simp: registry_disconnect)
qed (use k in \<open>simp_all add: registry_joinUserRoom registry_sendMessage registry_createUpdate
      registry_updateReaction registry_updateSettings\<close>)

lemma run_keys:
  "fst ` set (onlineUsersMap st) \<subseteq> {u} \<Longrightarrow> only_user u evs \<Longrightarrow>
   fst ` set (onlineUsersMap (run st evs)) \<subseteq> {u}"
proof (induction st evs rule: run.induct)
  case (1 st)
  then show ?case by simp
next
  case (2 st e es)
  from "2.prems"(2) have e: "login_user e = None \<or> login_user e = Some u"
    and es: "only_user u es" by (simp_all add: only_user_def)
  from step_keys [OF "2.prems"(1) e] have "fst ` set (onlineUsersMap (fst (step st e))) \<subseteq> {u}" .
  from "2.IH" [OF this es] show ?case by simp
qed

lemma same_user_owners:
  assumes "only_user u evs"
  shows "set (owners (run (initializeSocket us ss ms es) evs) s) \<subseteq> {u}"
proof -
  have "fst ` set (onlineUsersMap (initializeSocket us ss ms es)) \<subseteq> {u}"
    by (simp add: initializeSocket_def)
  from run_keys [OF this assms] owners_keys [of "run (initializeSocket us ss ms es) evs" s]
  show ?thesis by blast
qed

lemma two_connections:
  assumes ok: "registry_ok (onlineUsersMap st)" and ne: "s1 \<noteq> s2"
    and off: "connections st u = {}" and f1: "owners st s1 = []" and f2: "owners st s2 = []"
  shows "connections (run st [UserLogin s1 u t1 a1 b1, UserLogin s2 u t2 a2 b2]) u = {s1, s2}"
    and "isOnlineUser (run st [UserLogin s1 u t1 a1 b1, UserLogin s2 u t2 a2 b2,
            Disconnect s1 t3 a3 b3]) u"
    and "connections (run st [UserLogin s1 u t1 a1 b1, UserLogin s2 u t2 a2 b2,
            Disconnect s1 t3 a3 b3]) u = {s2}"
    and "\<not> isOnlineUser (run st [UserLogin s1 u t1 a1 b1, UserLogin s2 u t2 a2 b2,
            Disconnect s1 t3 a3 b3, Disconnect s2 t4 a4 b4]) u"
proof -
  let ?st1 = "fst (userLogin st s1 u t1 a1 b1)"
  let ?st2 = "fst (userLogin ?st1 s2 u t2 a2 b2)"
  let ?st3 = "fst (disconnect ?st2 s1 t3 a3 b3)"
  let ?st4 = "fst (disconnect ?st3 s2 t4 a4 b4)"
  have ok2: "registry_ok (onlineUsersMap ?st2)"
    using ok by (simp add: registry_userLogin associate_ok)
  then have ok3: "registry_ok (onlineUsersMap ?st3)"
    by (simp add: registry_disconnect disconnect_scan_ok)
  have c2: "connections ?st2 u = {s1, s2}"
    using off by (auto simp: connections_userLogin)
  have o1: "set (owners ?st2 s1) \<subseteq> {u}"
    using owners_userLogin [of ?st1 s2 u t2 a2 b2 s1] owners_userLogin [of st s1 u t1 a1 b1 s1] f1
    by auto
  have o2: "set (owners ?st2 s2) \<subseteq> {u}"
    using owners_userLogin [of ?st1 s2 u t2 a2 b2 s2] owners_userLogin [of st s1 u t1 a1 b1 s2] f2
    by auto
  have m1: "s1 \<in> connections ?st2 u" using c2 by simp
  have c3: "connections ?st3 u = {s2}"
    using disconnect_owner(1) [OF ok2 m1 o1, of t3 a3 b3] c2 ne by auto
  have on3: "isOnlineUser ?st3 u"
    using disconnect_owner(2) [OF ok2 m1 o1, of t3 a3 b3] c2 ne by auto
  have o3: "set (owners ?st3 s2) \<subseteq> {u}"
    using owners_disconnect [of ?st2 s1 t3 a3 b3 s2] o2 by blast
  have m2: "s2 \<in> connections ?st3 u" using c3 by simp
  have off4: "\<not> isOnlineUser ?st4 u"
    using disconnect_owner(2) [OF ok3 m2 o3, of t4 a4 b4] c3 by simp
  show "connections (run st [UserLogin s1 u t1 a1 b1, UserLogin s2 u t2 a2 b2]) u = {s1, s2}"
    using c2 by simp
  show "isOnlineUser (run st [UserLogin s1 u t1 a1 b1, UserLogin s2 u t2 a2 b2,
            Disconnect s1 t3 a3 b3]) u"
    using on3 by simp
  show "connections (run st [UserLogin s1 u t1 a1 b1, UserLogin s2 u t2 a2 b2,
            Disconnect s1 t3 a3 b3]) u = {s2}"
    using c3 by simp
  show "\<not> isOnlineUser (run st [UserLogin s1 u t1 a1 b1, UserLogin s2 u t2 a2 b2,
            Disconnect s1 t3 a3 b3, Disconnect s2 t4 a4 b4]) u"
    using off4 by simp
qed

text \<open>
  Claim C6. In every state the server reaches from \<^verbatim>\<open>initializeSocket\<close>, by any sequence of
  inbound events, the map has an entry for a user exactly when the user's connection set
  is not empty. When a socket that only this user's set holds disconnects, the set loses
  it, the entry stays exactly when another connection is left, and the store is told the
  user is offline exactly when none is left (and the id is not the empty string, which
  \<^verbatim>\<open>if (disconnectedUserId)\<close> rejects). A sequence whose logins are all for one user
  never puts a socket into another user's set. A user who logs in on two fresh sockets
  is online after the first disconnects and offline after both did.
\<close>

theorem online_iff_connections:
  "registry_ok (onlineUsersMap (run (initializeSocket us ss ms es) evs)) \<and>
   (isOnlineUser (run (initializeSocket us ss ms es) evs) u \<longleftrightarrow>
      connections (run (initializeSocket us ss ms es) evs) u \<noteq> {}) \<and>
   (only_user u evs \<longrightarrow> set (owners (run (initializeSocket us ss ms es) evs) s) \<subseteq> {u}) \<and>
   (registry_ok (onlineUsersMap st) \<and> s \<in> connections st u \<and> set (owners st s) \<subseteq> {u} \<longrightarrow>
      connections (fst (disconnect st s now r1 r2)) u = connections st u - {s} \<and>
      (isOnlineUser (fst (disconnect st s now r1 r2)) u \<longleftrightarrow> connections st u \<noteq> {s}) \<and>
      (UpdateUser u False now \<in> set (snd (disconnect st s now Ok r2)) \<longleftrightarrow>
         connections st u = {s} \<and> u \<noteq> [])) \<and>
   (registry_ok (onlineUsersMap st) \<and> s1 \<noteq> s2 \<and> connections st u = {} \<and>
    owners st s1 = [] \<and> owners st s2 = [] \<longrightarrow>
      connections (run st [UserLogin s1 u t1 a1 b1, UserLogin s2 u t2 a2 b2]) u = {s1, s2} \<and>
      isOnlineUser (run st [UserLogin s1 u t1 a1 b1, UserLogin s2 u t2 a2 b2,
         Disconnect s1 t3 a3 b3]) u \<and>
      connections (run st [UserLogin s1 u t1 a1 b1, UserLogin s2 u t2 a2 b2,
         Disconnect s1 t3 a3 b3]) u = {s2} \<and>
      \<not> isOnlineUser (run st [UserLogin s1 u t1 a1 b1, UserLogin s2 u t2 a2 b2,
         Disconnect s1 t3 a3 b3, Disconnect s2 t4 a4 b4]) u)"
proof -
  note r = reachable_registry_ok [of us ss ms es evs]
  have a: "isOnlineUser (run (initializeSocket us ss ms es) evs) u \<longleftrightarrow>
      connections (run (initializeSocket us ss ms es) evs) u \<noteq> {}"
    by (rule online_iff [OF r])
  have b: "only_user u evs \<longrightarrow> set (owners (run (initializeSocket us ss ms es) evs) s) \<subseteq> {u}"
    using same_user_owners by blast
  have c: "registry_ok (onlineUsersMap st) \<and> s \<in> connections st u \<and> set (owners st s) \<subseteq> {u} \<longrightarrow>
      connections (fst (disconnect st s now r1 r2)) u = connections st u - {s} \<and>
      (isOnlineUser (fst (disconnect st s now r1 r2)) u \<longleftrightarrow> connections st u \<noteq> {s}) \<and>
      (UpdateUser u False now \<in> set (snd (disconnect st s now Ok r2)) \<longleftrightarrow>
         connections st u = {s} \<and> u \<noteq> [])"
    using disconnect_owner(1,2) [of st s u now r1 r2] disconnect_marks_offline [of st s u now r2]
    by blast
  have d: "registry_ok (onlineUsersMap st) \<and> s1 \<noteq> s2 \<and> connections st u = {} \<and>
    owners st s1 = [] \<and> owners st s2 = [] \<longrightarrow>
      connections (run st [UserLogin s1 u t1 a1 b1, UserLogin s2 u t2 a2 b2]) u = {s1, s2} \<and>
      isOnlineUser (run st [UserLogin s1 u t1 a1 b1, UserLogin s2 u t2 a2 b2,
         Disconnect s1 t3 a3 b3]) u \<and>
      connections (run st [UserLogin s1 u t1 a1 b1, UserLogin s2 u t2 a2 b2,
         Disconnect s1 t3 a3 b3]) u = {s2} \<and>
      \<not> isOnlineUser (run st [UserLogin s1 u t1 a1 b1, UserLogin s2 u t2 a2 b2,
         Disconnect s1 t3 a3 b3, Disconnect s2 t4 a4 b4]) u"
  proof (intro impI, elim conjE)
    assume h: "registry_ok (onlineUsersMap st)" "s1 \<noteq> s2" "connections st u = {}"
      "owners st s1 = []" "owners st s2 = []"
    show "connections (run st [UserLogin s1 u t1 a1 b1, UserLogin s2 u t2 a2 b2]) u = {s1, s2} \<and>
      isOnlineUser (run st [UserLogin s1 u t1 a1 b1, UserLogin s2 u t2 a2 b2,
         Disconnect s1 t3 a3 b3]) u \<and>
      connections (run st [UserLogin s1 u t1 a1 b1, UserLogin s2 u t2 a2 b2,
         Disconnect s1 t3 a3 b3]) u = {s2} \<and>
      \<not> isOnlineUser (run st [UserLogin s1 u t1 a1 b1, UserLogin s2 u t2 a2 b2,
         Disconnect s1 t3 a3 b3, Disconnect s2 t4 a4 b4]) u"
      by (intro conjI) (rule two_connections [OF h])+
  qed
  from r a b c d show ?thesis by blast
qed

subsection \<open>Two connections of one user\<close>

lemma registry_two_devices: "onlineUsersMap two_devices = [(''alice'', {''s1'', ''s2''})]"
  by (simp add: two_devices_def initializeSocket_def userLogin_def associate_def Let_def
      insert_commute)

text \<open>One user on sockets \<^verbatim>\<open>s1\<close> and \<^verbatim>\<open>s2\<close>: the hypotheses hold of the example states, and
  the user is online after \<^verbatim>\<open>s1\<close> disconnected and offline after \<^verbatim>\<open>s2\<close> did too.\<close>

theorem online_iff_connections_witness:
  "only_user ''alice''
     [UserLogin ''s1'' ''alice'' 1 Ok Ok, UserLogin ''s2'' ''alice'' 2 Ok Ok,
      Disconnect ''s1'' 3 Ok Ok] \<and>
   set (owners (run (initializeSocket [] [] [] [])
     [UserLogin ''s1'' ''alice'' 1 Ok Ok, UserLogin ''s2'' ''alice'' 2 Ok Ok,
      Disconnect ''s1'' 3 Ok Ok]) ''s2'') \<subseteq> {''alice''} \<and>
   (registry_ok (onlineUsersMap two_devices) \<and>
    ''s1'' \<in> connections two_devices ''alice'' \<and>
    set (owners two_devices ''s1'') \<subseteq> {''alice''}) \<and>
   connections two_devices ''alice'' = {''s1'', ''s2''} \<and>
   (connections (fst (disconnect two_devices ''s1'' 3 Ok Ok)) ''alice'' =
      connections two_devices ''alice'' - {''s1''} \<and>
    (isOnlineUser (fst (disconnect two_devices ''s1'' 3 Ok Ok)) ''alice'' \<longleftrightarrow>
       connections two_devices ''alice'' \<noteq> {''s1''}) \<and>
    (UpdateUser ''alice'' False 3 \<in> set (snd (disconnect two_devices ''s1'' 3 Ok Ok)) \<longleftrightarrow>
       connections two_devices ''alice'' = {''s1''} \<and> ''alice'' \<noteq> [])) \<and>
   (registry_ok (onlineUsersMap (initializeSocket [] [] [] [])) \<and>
    ''s1'' \<noteq> ''s2'' \<and>
    connections (initializeSocket [] [] [] []) ''alice'' = {} \<and>
    owners (initializeSocket [] [] [] []) ''s1'' = [] \<and>
    owners (initializeSocket [] [] [] []) ''s2'' = []) \<and>
   (connections (run (initializeSocket [] [] [] [])
      [UserLogin ''s1'' ''alice'' 1 Ok Ok, UserLogin ''s2'' ''alice'' 2 Ok Ok]) ''alice'' =
      {''s1'', ''s2''} \<and>
    isOnlineUser (run (initializeSocket [] [] [] [])
      [UserLogin ''s1'' ''alice'' 1 Ok Ok, UserLogin ''s2'' ''alice'' 2 Ok Ok,
       Disconnect ''s1'' 3 Ok Ok]) ''alice'' \<and>
    connections (run (initializeSocket [] [] [] [])
      [UserLogin ''s1'' ''alice'' 1 Ok Ok, UserLogin ''s2'' ''alice'' 2 Ok Ok,
       Disconnect ''s1'' 3 Ok Ok]) ''alice'' = {''s2''} \<and>
    \<not> isOnlineUser (run (initializeSocket [] [] [] [])
      [UserLogin ''s1'' ''alice'' 1 Ok Ok, UserLogin ''s2'' ''alice'' 2 Ok Ok,
       Disconnect ''s1'' 3 Ok Ok, Disconnect ''s2'' 4 Ok Ok]) ''alice'')"
proof -
  let ?init = "initializeSocket [] [] [] []"
  let ?evs = "[UserLogin ''s1'' ''alice'' 1 Ok Ok, UserLogin ''s2'' ''alice'' 2 Ok Ok,
      Disconnect ''s1'' 3 Ok Ok]"
  have h1: "only_user ''alice'' ?evs" by (simp add: only_user_def)
  have h2: "registry_ok (onlineUsersMap two_devices) \<and>
    ''s1'' \<in> connections two_devices ''alice'' \<and>
    set (owners two_devices ''s1'') \<subseteq> {''alice''}"
    by (simp add: registry_two_devices registry_ok_def connections_def owners_def)
  have c: "connections two_devices ''alice'' = {''s1'', ''s2''}"
    by (simp add: connections_def registry_two_devices)
  have h3: "registry_ok (onlineUsersMap ?init) \<and> ''s1'' \<noteq> ''s2'' \<and>
    connections ?init ''alice'' = {} \<and> owners ?init ''s1'' = [] \<and> owners ?init ''s2'' = []"
    by (simp add: initializeSocket_def registry_ok_def connections_def owners_def)
  note a = online_iff_connections [where us = "[]" and ss = "[]" and ms = "[]" and es = "[]"
      and evs = ?evs and u = "''alice''" and s = "''s1''" and st = two_devices
      and now = 3 and ?r1.0 = Ok and ?r2.0 = Ok]
  note b = online_iff_connections [where us = "[]" and ss = "[]" and ms = "[]" and es = "[]"
      and evs = ?evs and u = "''alice''" and s = "''s2''" and st = ?init
      and ?s1.0 = "''s1''" and ?s2.0 = "''s2''"
      and ?t1.0 = 1 and ?a1.0 = Ok and ?b1.0 = Ok and ?t2.0 = 2 and ?a2.0 = Ok and ?b2.0 = Ok
      and ?t3.0 = 3 and ?a3.0 = Ok and ?b3.0 = Ok and ?t4.0 = 4 and ?a4.0 = Ok and ?b4.0 = Ok]
  note b3 = b [THEN conjunct2, THEN conjunct2, THEN conjunct1, THEN mp, OF h1]
  note a4 = a [THEN conjunct2, THEN conjunct2, THEN conjunct2, THEN conjunct1, THEN mp, OF h2]
  note b5 = b [THEN conjunct2, THEN conjunct2, THEN conjunct2, THEN conjunct2, THEN mp, OF h3]
  show ?thesis
    by (intro conjI h1 b3 h2 c a4 h3 b5)
qed

subsection \<open>One socket, two logins\<close>

lemma registry_switched:
  "onlineUsersMap switched_account = [(''alice'', {''s1''}), (''bob'', {''s1''})]"
  by (simp add: switched_account_def initializeSocket_def userLogin_def associate_def Let_def)

lemma socket_switched: "socketUserId switched_account ''s1'' = Some ''bob''"
  by (simp add: switched_account_def initializeSocket_def userLogin_def Let_def)

lemma users_switched: "users switched_account = []"
  by (simp add: switched_account_def initializeSocket_def userLogin_def Let_def findByIdAndUpdate_def)

text \<open>
  Claim C5 does not hold of the code. \<^verbatim>\<open>userLogin\<close> adds the socket id to the set of the
  user it is given and never takes it out of another user's set, so a socket that logs
  in as \<^verbatim>\<open>alice\<close> and then as \<^verbatim>\<open>bob\<close> is in both sets, while \<^verbatim>\<open>socket.userId\<close> is \<^verbatim>\<open>bob\<close>. The
  scan of \<^verbatim>\<open>disconnect\<close> stops at the first set that holds the id: when the socket
  disconnects, \<^verbatim>\<open>alice\<close> is removed and marked offline, and \<^verbatim>\<open>bob\<close> stays in the map with
  a socket that is gone.
\<close>

theorem login_twice_two_owners:
  "owners switched_account ''s1'' = [''alice'', ''bob''] \<and>
   ''s1'' \<in> connections switched_account ''alice'' \<and>
   ''s1'' \<in> connections switched_account ''bob'' \<and>
   socketUserId switched_account ''s1'' = Some ''bob'' \<and>
   onlineUsersMap (fst (disconnect switched_account ''s1'' 3 Ok Ok)) = [(''bob'', {''s1''})] \<and>
   snd (disconnect switched_account ''s1'' 3 Ok Ok) =
     [UpdateUser ''alice'' False 3, Emit ToAll ''onlineUsers'' (OnlineUsers [])]"
  by (simp add: registry_switched socket_switched users_switched
      owners_def connections_def disconnect_def emitOnlineUsers_def usersToShowAsOnline_def
      findByIdAndUpdate_def Let_def)

text \<open>The other direction: as long as no socket logs in under two user ids, no socket is
  in the connection sets of two users.\<close>

lemma logins_append: "logins (xs @ ys) = logins xs @ logins ys"
  by (induction xs rule: logins.induct) simp_all

lemma logged_mono: "logged L st \<Longrightarrow> L \<subseteq> L' \<Longrightarrow> logged L' st"
  unfolding logged_def by blast

lemma loggedD: "logged L st \<Longrightarrow> (v, T) \<in> set (onlineUsersMap st) \<Longrightarrow> s \<in> T \<Longrightarrow> (s, v) \<in> L"
  unfolding logged_def by blast

lemma loggedI:
  "(\<And>v T s. (v, T) \<in> set (onlineUsersMap st) \<Longrightarrow> s \<in> T \<Longrightarrow> (s, v) \<in> L) \<Longrightarrow> logged L st"
  unfolding logged_def by blast

lemma logged_userLogin:
  assumes ok: "registry_ok (onlineUsersMap st)" and l: "logged L st"
  shows "logged (insert (sid, u) L) (fst (userLogin st sid u now r1 r2))"
proof (rule loggedI)
  fix v T s
  assume "(v, T) \<in> set (onlineUsersMap (fst (userLogin st sid u now r1 r2)))" and s: "s \<in> T"
  then have e: "(v, T) \<in> set (associate (onlineUsersMap st) u sid)"
    by (simp add: registry_userLogin)
  have "distinct (map fst (associate (onlineUsersMap st) u sid))"
    using associate_ok [OF ok] by (simp add: registry_ok_def)
  with e have m: "map_of (associate (onlineUsersMap st) u sid) v = Some T" by simp
  show "(s, v) \<in> insert (sid, u) L"
  proof (cases "v = u")
    case True
    with m have T: "T = insert sid (case map_of (onlineUsersMap st) u of None \<Rightarrow> {} | Some S \<Rightarrow> S)"
      by (simp add: map_of_associate)
    show ?thesis
    proof (cases "s = sid")
      case True
      with \<open>v = u\<close> show ?thesis by simp
    next
      case False
      with s T obtain S where S: "map_of (onlineUsersMap st) u = Some S" and sS: "s \<in> S"
        by (auto split: option.splits)
      from loggedD [OF l map_of_SomeD [OF S] sS] have "(s, u) \<in> L" .
      with \<open>v = u\<close> show ?thesis by simp
    qed
  next
    case False
    with m have "map_of (onlineUsersMap st) v = Some T" by (simp add: map_of_associate)
    from loggedD [OF l map_of_SomeD [OF this] s] show ?thesis by simp
  qed
qed

lemma logged_userLogout:
  "logged L st \<Longrightarrow> logged L (fst (userLogout st sid u now r1 r2))"
  by (auto simp: logged_def registry_userLogout AList.delete_eq)

lemma logged_disconnect:
  assumes "logged L st"
  shows "logged L (fst (disconnect st sid now r1 r2))"
proof (rule loggedI)
  fix v T s
  assume "(v, T) \<in> set (onlineUsersMap (fst (disconnect st sid now r1 r2)))" and s: "s \<in> T"
  then have "(v, T) \<in> set (fst (disconnect_scan sid (onlineUsersMap st)))"
    by (simp add: registry_disconnect)
  from disconnect_scan_entries [OF this] obtain T'
    where T': "(v, T') \<in> set (onlineUsersMap st)" "T \<subseteq> T'" by blast
  from s T'(2) have "s \<in> T'" by blast
  from loggedD [OF assms T'(1) this] show "(s, v) \<in> L" .
qed

lemma logged_step:
  assumes ok: "registry_ok (onlineUsersMap st)" and l: "logged L st"
  shows "logged (L \<union> set (logins [e])) (fst (step st e))"
proof (cases e)
  case (UserLogin sid u now r1 r2)
  from logged_userLogin [OF ok l, of sid u now r1 r2] show ?thesis
    unfolding UserLogin by simp
next
  case (UserLogout sid u now r1 r2)
  from logged_userLogout [OF l, of sid u now r1 r2] show ?thesis
    unfolding UserLogout by simp
next
  case (Disconnect sid now r1 r2)
  from logged_disconnect [OF l, of sid now r1 r2] show ?thesis
    unfolding Disconnect by simp
qed (use l in \<open>simp_all add: logged_def registry_joinUserRoom registry_sendMessage
      registry_createUpdate registry_updateReaction registry_updateSettings\<close>)

lemma logged_run:
  "registry_ok (onlineUsersMap st) \<Longrightarrow> logged L st \<Longrightarrow>
   logged (L \<union> set (logins evs)) (run st evs)"
proof (induction st evs arbitrary: L rule: run.induct)
  case (1 st)
  then show ?case by simp
next
  case (2 st e es)
  have ok': "registry_ok (onlineUsersMap (fst (step st e)))"
    by (rule step_registry_ok [OF "2.prems"(1)])
  have l': "logged (L \<union> set (logins [e])) (fst (step st e))"
    by (rule logged_step [OF "2.prems"])
  from "2.IH" [OF ok' l'] have "logged (L \<union> set (logins [e]) \<union> set (logins es)) (run (fst (step st e)) es)" .
  moreover have "logins (e # es) = logins [e] @ logins es"
    using logins_append [of "[e]" es] by simp
  ultimately show ?case by (simp add: Un_assoc)
qed

lemma single_identity_one_owner:
  assumes si: "single_identity evs"
    and u: "u \<in> set (owners (run (initializeSocket us ss ms es) evs) s)"
    and v: "v \<in> set (owners (run (initializeSocket us ss ms es) evs) s)"
  shows "u = v"
proof -
  let ?st = "run (initializeSocket us ss ms es) evs"
  have "logged ({} \<union> set (logins evs)) ?st"
    by (rule logged_run) (simp_all add: initializeSocket_def registry_ok_def logged_def)
  then have l: "logged (set (logins evs)) ?st" by simp
  from u obtain T where "(u, T) \<in> set (onlineUsersMap ?st)" "s \<in> T"
    by (auto simp: owners_def)
  from loggedD [OF l this] have a: "(s, u) \<in> set (logins evs)" .
  from v obtain R where "(v, R) \<in> set (onlineUsersMap ?st)" "s \<in> R"
    by (auto simp: owners_def)
  from loggedD [OF l this] have b: "(s, v) \<in> set (logins evs)" .
  from si a b show ?thesis
    by (auto simp: single_identity_def list_all_iff)
qed

subsection \<open>Logout\<close>

lemma disconnect_no_owner:
  assumes "owners st s = []"
  shows "disconnect st s now r1 r2 = (st, [])"
proof -
  from assms have "\<forall>(v, T)\<in>set (onlineUsersMap st). s \<notin> T" by (simp add: owners_empty)
  then have "disconnect_scan s (onlineUsersMap st) = (onlineUsersMap st, None)"
    by (rule disconnect_scan_absent)
  then show ?thesis by (simp add: disconnect_def)
qed

text \<open>
  Claim C9: after \<^verbatim>\<open>userLogout(userId)\<close>, whatever the store calls did, the map has no entry
  for the user and the user's connection set is empty, however many sockets it held. When
  a socket that only this user's set held disconnects afterwards, the scan finds nothing:
  the state is unchanged and nothing happens, no store write and no broadcast.
\<close>

theorem userLogout_removes_all:
  "\<not> isOnlineUser (fst (userLogout st sid u now r1 r2)) u \<and>
   connections (fst (userLogout st sid u now r1 r2)) u = {} \<and>
   (set (owners st s) \<subseteq> {u} \<longrightarrow>
      disconnect (fst (userLogout st sid u now r1 r2)) s now' r1' r2' =
        (fst (userLogout st sid u now r1 r2), []))"
proof -
  let ?st' = "fst (userLogout st sid u now r1 r2)"
  have m: "map_of (onlineUsersMap ?st') u = None"
    by (simp add: registry_userLogout delete_conv')
  have a: "\<not> isOnlineUser ?st' u" using m by (simp add: isOnlineUser_def)
  have b: "connections ?st' u = {}" using m by (simp add: connections_def)
  have c: "set (owners st s) \<subseteq> {u} \<longrightarrow> disconnect ?st' s now' r1' r2' = (?st', [])"
  proof
    assume "set (owners st s) \<subseteq> {u}"
    then have "owners ?st' s = []"
      by (auto simp: owners_def registry_userLogout AList.delete_eq filter_empty_conv)
    then show "disconnect ?st' s now' r1' r2' = (?st', [])"
      by (rule disconnect_no_owner)
  qed
  from a b c show ?thesis by blast
qed

text \<open>The user of the two sockets logs out on \<^verbatim>\<open>s1\<close>; then \<^verbatim>\<open>s2\<close> disconnects.\<close>

theorem userLogout_removes_all_witness:
  "connections two_devices ''alice'' = {''s1'', ''s2''} \<and>
   set (owners two_devices ''s2'') \<subseteq> {''alice''} \<and>
   \<not> isOnlineUser (fst (userLogout two_devices ''s1'' ''alice'' 3 Ok Ok)) ''alice'' \<and>
   connections (fst (userLogout two_devices ''s1'' ''alice'' 3 Ok Ok)) ''alice'' = {} \<and>
   disconnect (fst (userLogout two_devices ''s1'' ''alice'' 3 Ok Ok)) ''s2'' 4 Ok Ok =
     (fst (userLogout two_devices ''s1'' ''alice'' 3 Ok Ok), [])"
proof -
  have c: "connections two_devices ''alice'' = {''s1'', ''s2''}"
    by (simp add: connections_def registry_two_devices)
  have o: "set (owners two_devices ''s2'') \<subseteq> {''alice''}"
    by (simp add: owners_def registry_two_devices)
  note t = userLogout_removes_all [where st = two_devices and sid = "''s1''" and u = "''alice''"
      and now = 3 and ?r1.0 = Ok and ?r2.0 = Ok and s = "''s2''" and now' = 4
      and r1' = Ok and r2' = Ok]
  note t1 = t [THEN conjunct1]
  note t2 = t [THEN conjunct2, THEN conjunct1]
  note t3 = t [THEN conjunct2, THEN conjunct2, THEN mp, OF o]
  show ?thesis
    by (intro conjI c o t1 t2 t3)
qed

subsection \<open>Login when the store write fails\<close>

text \<open>
  Claim C10: whatever the store calls of \<^verbatim>\<open>userLogin\<close> do, the map of the resulting state
  is the old map with the socket added to the user's set, so the user is online in the
  registry. When the write that marks the user online rejects, the handler returns
  exactly that state, the User collection is as it was, and the only effect is the line
  of \<^verbatim>\<open>console.error\<close>.
\<close>

theorem userLogin_keeps_association:
  "onlineUsersMap (fst (userLogin st sid u now r1 r2)) = associate (onlineUsersMap st) u sid \<and>
   sid \<in> connections (fst (userLogin st sid u now r1 r2)) u \<and>
   isOnlineUser (fst (userLogin st sid u now r1 r2)) u \<and>
   userLogin st sid u now Throws r2 =
     (st\<lparr>socketUserId := (socketUserId st)(sid := Some u),
         onlineUsersMap := associate (onlineUsersMap st) u sid\<rparr>,
      [ConsoleError ''Error in userLogin:'']) \<and>
   users (fst (userLogin st sid u now Throws r2)) = users st"
proof -
  have a: "onlineUsersMap (fst (userLogin st sid u now r1 r2)) = associate (onlineUsersMap st) u sid"
    by (rule registry_userLogin)
  have b: "sid \<in> connections (fst (userLogin st sid u now r1 r2)) u"
    by (simp add: connections_userLogin)
  have c: "isOnlineUser (fst (userLogin st sid u now r1 r2)) u"
    by (simp add: isOnlineUser_def registry_userLogin map_of_associate)
  have d: "userLogin st sid u now Throws r2 =
     (st\<lparr>socketUserId := (socketUserId st)(sid := Some u),
         onlineUsersMap := associate (onlineUsersMap st) u sid\<rparr>,
      [ConsoleError ''Error in userLogin:''])"
    by (simp add: userLogin_def Let_def)
  have e: "users (fst (userLogin st sid u now Throws r2)) = users st"
    by (simp add: userLogin_def Let_def)
  from a b c d e show ?thesis by blast
qed

section \<open>Properties of the message and update handlers\<close>

subsection \<open>Events on a socket without a user\<close>

text \<open>
  Claim C4 as written says the handler reports the failure to the originating connection
  with a targeted error event. On a socket that never logged in, none of the three
  handlers emits \<^verbatim>\<open>messageError\<close> or \<^verbatim>\<open>updateError\<close> to it.
\<close>

theorem unauthenticated_no_error_event_counterexample:
  "socket_user (initializeSocket [] [] [] []) ''s1'' = None \<and>
   snd (sendMessage (initializeSocket [] [] [] []) ''s1''
          (Some \<lparr>recipientId = ''bob'', msg_text = ''hi''\<rparr>) Ok Ok Ok) =
     [ConsoleError ''Message sender not authenticated''] \<and>
   \<not> list_ex (targeted_error ''s1'')
       (snd (sendMessage (initializeSocket [] [] [] []) ''s1''
          (Some \<lparr>recipientId = ''bob'', msg_text = ''hi''\<rparr>) Ok Ok Ok)) \<and>
   snd (createUpdate (initializeSocket [] [] [] []) ''s1''
          (Some \<lparr>d_title = ''Fest'', d_description = ''Annual fest''\<rparr>) ''e1'' Ok Ok) =
     [ConsoleError ''Update creator not authenticated''] \<and>
   \<not> list_ex (targeted_error ''s1'')
       (snd (createUpdate (initializeSocket [] [] [] []) ''s1''
          (Some \<lparr>d_title = ''Fest'', d_description = ''Annual fest''\<rparr>) ''e1'' Ok Ok)) \<and>
   snd (updateReaction (initializeSocket [] [] [] []) ''s1''
          (Some \<lparr>updateId = ''e1'', reactionType = ''like''\<rparr>) Ok Ok) =
     [ConsoleError ''User not authenticated for reaction''] \<and>
   \<not> list_ex (targeted_error ''s1'')
       (snd (updateReaction (initializeSocket [] [] [] []) ''s1''
          (Some \<lparr>updateId = ''e1'', reactionType = ''like''\<rparr>) Ok Ok))"
  by (simp add: socket_user_def initializeSocket_def sendMessage_def createUpdate_def
      updateReaction_def)

text \<open>
  Claim C4, as the code has it. When \<^verbatim>\<open>socket.userId\<close> is unset or empty, \<^verbatim>\<open>sendMessage\<close>
  (given a payload object), \<^verbatim>\<open>createUpdate\<close> and \<^verbatim>\<open>updateReaction\<close> write one line with
  \<^verbatim>\<open>console.error\<close> and return: the state is unchanged, nothing is emitted to any
  connection, and nothing is written to a store.
\<close>

theorem unauthenticated_only_logs:
  assumes "socket_user st sid = None"
  shows "sendMessage st sid (Some d) r1 r2 r3 =
           (st, [ConsoleError ''Message sender not authenticated'']) \<and>
         createUpdate st sid cdata new_id r1 r2 =
           (st, [ConsoleError ''Update creator not authenticated'']) \<and>
         updateReaction st sid rdata r1 r2 =
           (st, [ConsoleError ''User not authenticated for reaction'']) \<and>
         filter is_emit (snd (sendMessage st sid (Some d) r1 r2 r3)) = [] \<and>
         filter is_emit (snd (createUpdate st sid cdata new_id r1 r2)) = [] \<and>
         filter is_emit (snd (updateReaction st sid rdata r1 r2)) = [] \<and>
         filter is_store_write (snd (sendMessage st sid (Some d) r1 r2 r3)) = [] \<and>
         filter is_store_write (snd (createUpdate st sid cdata new_id r1 r2)) = [] \<and>
         filter is_store_write (snd (updateReaction st sid rdata r1 r2)) = []"
  using assms by (simp add: sendMessage_def createUpdate_def updateReaction_def)

text \<open>A socket that never logged in, on a server that stores one update.\<close>

theorem unauthenticated_only_logs_witness:
  "socket_user (initializeSocket [] [] [] [fresh_update]) ''s1'' = None \<and>
   sendMessage (initializeSocket [] [] [] [fresh_update]) ''s1''
     (Some \<lparr>recipientId = ''bob'', msg_text = ''hi''\<rparr>) Ok Ok Ok =
     (initializeSocket [] [] [] [fresh_update],
      [ConsoleError ''Message sender not authenticated'']) \<and>
   createUpdate (initializeSocket [] [] [] [fresh_update]) ''s1''
     (Some \<lparr>d_title = ''Fest'', d_description = ''Annual fest''\<rparr>) ''e2'' Ok Ok =
     (initializeSocket [] [] [] [fresh_update],
      [ConsoleError ''Update creator not authenticated'']) \<and>
   updateReaction (initializeSocket [] [] [] [fresh_update]) ''s1''
     (Some \<lparr>updateId = ''e1'', reactionType = ''like''\<rparr>) Ok Ok =
     (initializeSocket [] [] [] [fresh_update],
      [ConsoleError ''User not authenticated for reaction''])"
proof -
  have h: "socket_user (initializeSocket [] [] [] [fresh_update]) ''s1'' = None"
    by (simp add: socket_user_def initializeSocket_def)
  note t = unauthenticated_only_logs [OF h,
      where d = "\<lparr>recipientId = ''bob'', msg_text = ''hi''\<rparr>"
        and cdata = "Some \<lparr>d_title = ''Fest'', d_description = ''Annual fest''\<rparr>"
        and new_id = "''e2''"
        and rdata = "Some \<lparr>updateId = ''e1'', reactionType = ''like''\<rparr>"
        and ?r1.0 = Ok and ?r2.0 = Ok and ?r3.0 = Ok]
  note t1 = t [THEN conjunct1]
  note t2 = t [THEN conjunct2, THEN conjunct1]
  note t3 = t [THEN conjunct2, THEN conjunct2, THEN conjunct1]
  show ?thesis by (intro conjI h t1 t2 t3)
qed

text \<open>A \<^verbatim>\<open>sendMessage\<close> without a payload object never reaches the check of the sender:
  the destructuring of line 65 throws, and the catch block answers the socket.\<close>

lemma sendMessage_no_payload:
  "sendMessage st sid None r1 r2 r3 =
     (st, [ConsoleError ''Error in sendMessage:'',
           Emit (ToSocket sid) ''messageError'' (ErrorPayload ''Failed to send message'')])"
  by (simp add: sendMessage_def sendMessage_failed_def)

subsection \<open>A message is saved before it is delivered\<close>

lemma sendMessage_cases:
  "snd (sendMessage st sid data r1 r2 r3) = sendMessage_failed sid \<or>
   snd (sendMessage st sid data r1 r2 r3) = [ConsoleError ''Message sender not authenticated''] \<or>
   (\<exists>m es. snd (sendMessage st sid data r1 r2 r3) = SaveMessage m # es)"
  by (auto simp: sendMessage_def Let_def split: option.splits db_result.splits)

lemma saved_before_delivery_sendMessage:
  "saved_before_delivery (snd (sendMessage st sid data r1 r2 r3))"
  using sendMessage_cases [of st sid data r1 r2 r3]
  by (auto simp: sendMessage_failed_def)

text \<open>
  Claim C7. For a \<^verbatim>\<open>sendMessage\<close> on a socket with a user id, and every outcome of the
  store calls: no \<^verbatim>\<open>newMessage\<close> or \<^verbatim>\<open>messageSent\<close> emission stands before the successful
  save, whatever the payload; for a payload object, when such an emission occurs the
  save succeeded and the Message collection holds the new message; when the save
  rejects, the state is unchanged, nothing is delivered, and the only emission is
  \<^verbatim>\<open>messageError\<close> to the socket the event came from. When all store calls succeed the
  message is saved, then sent to the recipient's room, then to the sender's.
\<close>

theorem sendMessage_persists_first:
  assumes "socket_user st sid = Some me"
  shows "saved_before_delivery (snd (sendMessage st sid data r1 r2 r3)) \<and>
         (list_ex is_delivery (snd (sendMessage st sid (Some d) r1 r2 r3)) \<longrightarrow>
            r1 = Ok \<and>
            messages (fst (sendMessage st sid (Some d) r1 r2 r3)) =
              messages st @ [\<lparr>sender = me, recipient = recipientId d, body = msg_text d\<rparr>]) \<and>
         sendMessage st sid (Some d) Throws r2 r3 =
           (st, [ConsoleError ''Error in sendMessage:'',
                 Emit (ToSocket sid) ''messageError'' (ErrorPayload ''Failed to send message'')]) \<and>
         \<not> list_ex is_delivery (snd (sendMessage st sid (Some d) Throws r2 r3)) \<and>
         filter is_emit (snd (sendMessage st sid (Some d) Throws r2 r3)) =
           [Emit (ToSocket sid) ''messageError'' (ErrorPayload ''Failed to send message'')] \<and>
         sendMessage st sid (Some d) Ok Ok Ok =
           (st\<lparr>messages := messages st @
                 [\<lparr>sender = me, recipient = recipientId d, body = msg_text d\<rparr>]\<rparr>,
            [SaveMessage \<lparr>sender = me, recipient = recipientId d, body = msg_text d\<rparr>,
             Emit (ToRoom (recipientId d)) ''newMessage''
               (MessagePayload
                  \<lparr>f_sender = formatRef (populate (users st) me),
                   f_recipient = formatRef (populate (users st) (recipientId d)),
                   f_text = msg_text d\<rparr>),
             Emit (ToRoom me) ''messageSent''
               (MessagePayload
                  \<lparr>f_sender = formatRef (populate (users st) me),
                   f_recipient = formatRef (populate (users st) (recipientId d)),
                   f_text = msg_text d\<rparr>)])"
proof -
  have a: "saved_before_delivery (snd (sendMessage st sid data r1 r2 r3))"
    by (rule saved_before_delivery_sendMessage)
  have b: "list_ex is_delivery (snd (sendMessage st sid (Some d) r1 r2 r3)) \<longrightarrow>
            r1 = Ok \<and>
            messages (fst (sendMessage st sid (Some d) r1 r2 r3)) =
              messages st @ [\<lparr>sender = me, recipient = recipientId d, body = msg_text d\<rparr>]"
    using assms
    by (cases r1; cases r2; cases r3) (simp_all add: sendMessage_def sendMessage_failed_def Let_def)
  have c: "sendMessage st sid (Some d) Throws r2 r3 =
           (st, [ConsoleError ''Error in sendMessage:'',
                 Emit (ToSocket sid) ''messageError'' (ErrorPayload ''Failed to send message'')])"
    using assms by (simp add: sendMessage_def sendMessage_failed_def Let_def)
  have e: "\<not> list_ex is_delivery (snd (sendMessage st sid (Some d) Throws r2 r3))"
    unfolding c by simp
  have f: "filter is_emit (snd (sendMessage st sid (Some d) Throws r2 r3)) =
           [Emit (ToSocket sid) ''messageError'' (ErrorPayload ''Failed to send message'')]"
    unfolding c by simp
  have g: "sendMessage st sid (Some d) Ok Ok Ok =
           (st\<lparr>messages := messages st @
                 [\<lparr>sender = me, recipient = recipientId d, body = msg_text d\<rparr>]\<rparr>,
            [SaveMessage \<lparr>sender = me, recipient = recipientId d, body = msg_text d\<rparr>,
             Emit (ToRoom (recipientId d)) ''newMessage''
               (MessagePayload
                  \<lparr>f_sender = formatRef (populate (users st) me),
                   f_recipient = formatRef (populate (users st) (recipientId d)),
                   f_text = msg_text d\<rparr>),
             Emit (ToRoom me) ''messageSent''
               (MessagePayload
                  \<lparr>f_sender = formatRef (populate (users st) me),
                   f_recipient = formatRef (populate (users st) (recipientId d)),
                   f_text = msg_text d\<rparr>)])"
    using assms by (simp add: sendMessage_def Let_def)
  show ?thesis by (intro conjI a b c e f g)
qed

lemma socket_alice_online: "socket_user alice_online ''s1'' = Some ''alice''"
  by (simp add: alice_online_def userLogin_def Let_def socket_user_def)

lemma users_alice_online:
  "users alice_online = [alice_doc\<lparr>isOnline := True, lastSeen := 1\<rparr>, bob_doc]"
  by (simp add: alice_online_def userLogin_def Let_def initializeSocket_def findByIdAndUpdate_def
      alice_doc_def bob_doc_def)

lemma registry_alice_online: "onlineUsersMap alice_online = [(''alice'', {''s1''})]"
  by (simp add: alice_online_def userLogin_def Let_def initializeSocket_def associate_def)

text \<open>\<^verbatim>\<open>alice\<close> writes to \<^verbatim>\<open>bob\<close>: with the store working, and with the save rejecting.\<close>

theorem sendMessage_persists_first_witness:
  "socket_user alice_online ''s1'' = Some ''alice'' \<and>
   list_ex is_delivery
     (snd (sendMessage alice_online ''s1''
        (Some \<lparr>recipientId = ''bob'', msg_text = ''hi''\<rparr>) Ok Ok Ok)) \<and>
   saved_before_delivery
     (snd (sendMessage alice_online ''s1''
        (Some \<lparr>recipientId = ''bob'', msg_text = ''hi''\<rparr>) Ok Ok Ok)) \<and>
   messages (fst (sendMessage alice_online ''s1''
        (Some \<lparr>recipientId = ''bob'', msg_text = ''hi''\<rparr>) Ok Ok Ok)) =
     messages alice_online @
       [\<lparr>sender = ''alice'',
         recipient = recipientId \<lparr>recipientId = ''bob'', msg_text = ''hi''\<rparr>,
         body = msg_text \<lparr>recipientId = ''bob'', msg_text = ''hi''\<rparr>\<rparr>] \<and>
   \<not> list_ex is_delivery
     (snd (sendMessage alice_online ''s1''
        (Some \<lparr>recipientId = ''bob'', msg_text = ''hi''\<rparr>) Throws Ok Ok))"
proof -
  let ?d = "\<lparr>recipientId = ''bob'', msg_text = ''hi''\<rparr>"
  note t = sendMessage_persists_first [OF socket_alice_online,
      where d = ?d and data = "Some ?d" and ?r1.0 = Ok and ?r2.0 = Ok and ?r3.0 = Ok]
  have g: "sendMessage alice_online ''s1'' (Some ?d) Ok Ok Ok =
           (alice_online\<lparr>messages := messages alice_online @
                 [\<lparr>sender = ''alice'', recipient = recipientId ?d, body = msg_text ?d\<rparr>]\<rparr>,
            [SaveMessage \<lparr>sender = ''alice'', recipient = recipientId ?d, body = msg_text ?d\<rparr>,
             Emit (ToRoom (recipientId ?d)) ''newMessage''
               (MessagePayload
                  \<lparr>f_sender = formatRef (populate (users alice_online) ''alice''),
                   f_recipient = formatRef (populate (users alice_online) (recipientId ?d)),
                   f_text = msg_text ?d\<rparr>),
             Emit (ToRoom ''alice'') ''messageSent''
               (MessagePayload
                  \<lparr>f_sender = formatRef (populate (users alice_online) ''alice''),
                   f_recipient = formatRef (populate (users alice_online) (recipientId ?d)),
                   f_text = msg_text ?d\<rparr>)])"
    by (rule t [THEN conjunct2, THEN conjunct2, THEN conjunct2, THEN conjunct2, THEN conjunct2])
  have h: "list_ex is_delivery (snd (sendMessage alice_online ''s1'' (Some ?d) Ok Ok Ok))"
    unfolding g by simp
  note t1 = t [THEN conjunct1]
  note t2 = t [THEN conjunct2, THEN conjunct1, THEN mp, OF h, THEN conjunct2]
  note t4 = t [THEN conjunct2, THEN conjunct2, THEN conjunct2, THEN conjunct1]
  show ?thesis by (intro conjI socket_alice_online h t1 t2 t4)
qed

section \<open>Properties of the presence broadcast\<close>

text \<open>A broadcast names exactly the users that have an entry in the map and a User document
  whose \<^verbatim>\<open>showOnlineStatus\<close> is true.\<close>

lemma broadcast_ids:
  "set (map o_id (usersToShowAsOnline st)) =
     {u. isOnlineUser st u \<and> (\<exists>d\<in>set (users st). u_id d = u \<and> showOnlineStatus d)}"
  by (auto simp: usersToShowAsOnline_def toOnlineUser_def isOnlineUser_def Let_def
      map_of_eq_None_iff image_iff)

lemma findByIdAndUpdate_visibility:
  "d' \<in> set (findByIdAndUpdate us u b n) \<Longrightarrow>
   \<exists>d\<in>set us. u_id d = u_id d' \<and> showOnlineStatus d = showOnlineStatus d'"
proof -
  assume "d' \<in> set (findByIdAndUpdate us u b n)"
  then obtain d where d: "d \<in> set us"
    and d': "d' = (if u_id d = u then d\<lparr>isOnline := b, lastSeen := n\<rparr> else d)"
    unfolding findByIdAndUpdate_def by auto
  have "u_id d = u_id d' \<and> showOnlineStatus d = showOnlineStatus d'"
    unfolding d' by simp
  with d show ?thesis by blast
qed

text \<open>A user whose User document hides the online status logs in: the map has the user,
  the broadcast of the login does not.\<close>

lemma hidden_user_login:
  assumes "\<forall>d\<in>set (users st). u_id d = u \<longrightarrow> \<not> showOnlineStatus d"
  shows "isOnlineUser (fst (userLogin st sid u now Ok Ok)) u"
    and "broadcasts (snd (userLogin st sid u now Ok Ok)) =
           [map o_id (usersToShowAsOnline (fst (userLogin st sid u now Ok Ok)))]"
    and "u \<notin> set (map o_id (usersToShowAsOnline (fst (userLogin st sid u now Ok Ok))))"
proof -
  show "isOnlineUser (fst (userLogin st sid u now Ok Ok)) u"
    by (simp add: isOnlineUser_def registry_userLogin map_of_associate)
  show "broadcasts (snd (userLogin st sid u now Ok Ok)) =
           [map o_id (usersToShowAsOnline (fst (userLogin st sid u now Ok Ok)))]"
    by (simp add: userLogin_def Let_def emitOnlineUsers_def broadcasts_def)
  have us: "users (fst (userLogin st sid u now Ok Ok)) = findByIdAndUpdate (users st) u True now"
    by (simp add: userLogin_def Let_def)
  have "\<not> (\<exists>d\<in>set (findByIdAndUpdate (users st) u True now). u_id d = u \<and> showOnlineStatus d)"
  proof
    assume "\<exists>d\<in>set (findByIdAndUpdate (users st) u True now). u_id d = u \<and> showOnlineStatus d"
    then obtain d' where m: "d' \<in> set (findByIdAndUpdate (users st) u True now)"
      and p: "u_id d' = u" "showOnlineStatus d'" by blast
    from findByIdAndUpdate_visibility [OF m] obtain d where "d \<in> set (users st)"
      "u_id d = u_id d'" "showOnlineStatus d = showOnlineStatus d'" by blast
    with assms p show False by auto
  qed
  then show "u \<notin> set (map o_id (usersToShowAsOnline (fst (userLogin st sid u now Ok Ok))))"
    unfolding broadcast_ids us by blast
qed

lemma settings_alice_online: "userSettings alice_online = []"
  by (simp add: alice_online_def userLogin_def Let_def initializeSocket_def)

lemma online_alice: "isOnlineUser alice_online ''alice''"
  by (simp add: isOnlineUser_def registry_alice_online)

lemma updateSettings_alice:
  "updateSettings alice_online ''s1'' \<lparr>p_showOnlineStatus = Some False, p_showLastSeen = None\<rparr>
     Ok Ok =
   (alice_online\<lparr>userSettings :=
      [\<lparr>s_user = ''alice'', s_showOnlineStatus = Some False, s_showLastSeen = None\<rparr>]\<rparr>,
    [UpsertSettings ''alice'' \<lparr>p_showOnlineStatus = Some False, p_showLastSeen = None\<rparr>,
     Emit ToAll ''onlineUsers''
       (OnlineUsers [toOnlineUser (alice_doc\<lparr>isOnline := True, lastSeen := 1\<rparr>)])])"
  by (simp add: updateSettings_def socket_alice_online Let_def emitOnlineUsers_def
      usersToShowAsOnline_def registry_alice_online users_alice_online settings_alice_online
      apply_patch_def alice_doc_def bob_doc_def)

text \<open>
  Claim C3 does not hold of the code. \<^verbatim>\<open>emitOnlineUsers\<close> filters on \<^verbatim>\<open>showOnlineStatus\<close> of
  the User collection (line 32), \<^verbatim>\<open>updateSettings\<close> writes the UserSettings collection
  (line 301) and nothing in the module copies the value over. \<^verbatim>\<open>alice\<close> is online and visible;
  she sends \<^verbatim>\<open>updateSettings\<close> with \<^verbatim>\<open>showOnlineStatus: false\<close>; the settings document records
  it, the User collection is as before, and the broadcast the handler triggers still
  names her.
\<close>

theorem updateSettings_not_read_by_broadcast:
  "isOnlineUser alice_online ''alice'' \<and>
   userSettings (fst (updateSettings alice_online ''s1''
      \<lparr>p_showOnlineStatus = Some False, p_showLastSeen = None\<rparr> Ok Ok)) =
     [\<lparr>s_user = ''alice'', s_showOnlineStatus = Some False, s_showLastSeen = None\<rparr>] \<and>
   users (fst (updateSettings alice_online ''s1''
      \<lparr>p_showOnlineStatus = Some False, p_showLastSeen = None\<rparr> Ok Ok)) =
     users alice_online \<and>
   broadcasts (snd (updateSettings alice_online ''s1''
      \<lparr>p_showOnlineStatus = Some False, p_showLastSeen = None\<rparr> Ok Ok)) = [[''alice'']]"
  by (simp add: updateSettings_alice online_alice broadcasts_def
      toOnlineUser_def alice_doc_def)

end
